theory Spec2Isabelle
  imports Complex_Main "HOL-Library.Sublist" "HOL-Library.Multiset"
begin

section \<open>The intermediate annotation representation of lblconv (ir.go)\<close>

text \<open>
  Conventions of the embedding.
  \<^item> A Go \<^verbatim>\<open>float64\<close> is a \<^typ>\<open>real\<close>: a finite value, with exact arithmetic.  The
    model follows the code where the \<^verbatim>\<open>float64\<close> operations involved are exact; where the
    code rounds a result (the differences \<open>Width\<close> and \<open>Height\<close>, the products in
    \<open>resizeImage\<close>) the model has the exact value.  Infinities and NaN are outside the model.
    \<^verbatim>\<open>TransformBboxes\<close>, whose result is the rounded outcome of a chain of such operations,
    is not embedded.
  \<^item> A Go \<^verbatim>\<open>int\<close> is an \<^typ>\<open>int\<close>, and its arithmetic does not wrap around: the
    differences the code takes (of image bounds, of split boundaries) are those of values
    far inside 64 bits.  Slice indices and lengths are \<^typ>\<open>nat\<close>.
  \<^item> A Go \<^verbatim>\<open>string\<close> is a \<^typ>\<open>string\<close>, one \<^typ>\<open>char\<close> per byte.
  \<^item> The attribute map \<^verbatim>\<open>map[string]interface{}\<close> is a map from names to a tagged value of
    one of the four kinds the parsers of the repository store.  Maps and slices are values:
    every annotation owns its attribute map and every file owns its annotations.
  \<^item> A run-time panic of the Go program is an error value of the model.
  \<^item> What the functions write to the log is not part of the model.
\<close>

subsection \<open>Data model\<close>

datatype attr = AFloat real | AString string | AStrList "string list" | ABool bool

type_synonym coords = "real \<times> real \<times> real \<times> real"

record Annotation =
  Attributes :: "string \<rightharpoonup> attr"
  Coords :: coords
  Label :: string

record AnnotatedFile =
  Annotations :: "Annotation list"
  FilePath :: string

type_synonym AnnotatedFiles = "AnnotatedFile list"

definition AncestorLabels :: string where "AncestorLabels = ''Ancestors''"
definition Confidence :: string where "Confidence = ''Confidence''"
definition CropCoords :: string where "CropCoords = ''CropCoords''"
definition DetectedText :: string where "DetectedText = ''Text''"

definition Width :: "Annotation \<Rightarrow> real" where
  "Width a = (case Coords a of (x1, y1, x2, y2) \<Rightarrow> x2 - x1)"

definition Height :: "Annotation \<Rightarrow> real" where
  "Height a = (case Coords a of (x1, y1, x2, y2) \<Rightarrow> y2 - y1)"

text \<open>
  \<^verbatim>\<open>scaleCoords\<close>: the coordinates with an even index (x1, x2) are multiplied by \<open>width\<close>,
  those with an odd index (y1, y2) by \<open>height\<close>.
\<close>

definition scaleCoords :: "real \<Rightarrow> real \<Rightarrow> AnnotatedFile \<Rightarrow> AnnotatedFile" where
  "scaleCoords width height f =
     f\<lparr>Annotations :=
         map (\<lambda>a. a\<lparr>Coords := (case Coords a of (x1, y1, x2, y2) \<Rightarrow>
                                     (x1 * width, y1 * height, x2 * width, y2 * height))\<rparr>)
             (Annotations f)\<rparr>"

subsection \<open>Images, rectangles and rounding (Go standard library, package imaging)\<close>

record Rectangle =
  MinX :: int
  MinY :: int
  MaxX :: int
  MaxY :: int

definition Dx :: "Rectangle \<Rightarrow> int" where "Dx r = MaxX r - MinX r"
definition Dy :: "Rectangle \<Rightarrow> int" where "Dy r = MaxY r - MinY r"

text \<open>
  An image is known by its pixel bounds and by whether its dynamic type has a
  \<^verbatim>\<open>SubImage\<close> method; the pixels themselves are not modelled.
\<close>

record Image =
  Bounds :: Rectangle
  HasSubImage :: bool

text \<open>
  \<^verbatim>\<open>math.Round\<close>: to the nearest integer, halves away from zero.  The result is the integer
  itself; its conversion to \<^verbatim>\<open>int\<close> is \<open>roundToInt\<close> below.
\<close>

definition go_round :: "real \<Rightarrow> int" where
  "go_round x = (if x < 0 then - \<lfloor>- x + 1 / 2\<rfloor> else \<lfloor>x + 1 / 2\<rfloor>)"

text \<open>
  \<^verbatim>\<open>imaging.Resize\<close>: the bounds of the image it returns (an \<^verbatim>\<open>*image.NRGBA\<close>, which
  has \<^verbatim>\<open>SubImage\<close>).  A negative target side, two zero target sides or an empty source give
  the empty image; one zero target side is derived from the aspect ratio, at least 1 pixel.
\<close>

definition imaging_Resize :: "Image \<Rightarrow> int \<Rightarrow> int \<Rightarrow> Image" where
  "imaging_Resize img width height =
     (let empty = \<lparr>Bounds = \<lparr>MinX = 0, MinY = 0, MaxX = 0, MaxY = 0\<rparr>, HasSubImage = True\<rparr>;
          srcW = Dx (Bounds img); srcH = Dy (Bounds img)
      in if width < 0 \<or> height < 0 then empty
         else if width = 0 \<and> height = 0 then empty
         else if srcW \<le> 0 \<or> srcH \<le> 0 then empty
         else
           let dstW = (if width = 0
                       then max 1 \<lfloor>real_of_int height * real_of_int srcW / real_of_int srcH + 1 / 2\<rfloor>
                       else width);
               dstH = (if height = 0
                       then max 1 \<lfloor>real_of_int width * real_of_int srcH / real_of_int srcW + 1 / 2\<rfloor>
                       else height)
           in \<lparr>Bounds = \<lparr>MinX = 0, MinY = 0, MaxX = dstW, MaxY = dstH\<rparr>, HasSubImage = True\<rparr>)"

subsection \<open>resizeImage (via.go)\<close>

text \<open>
  The resampling filter only selects how pixels are interpolated, so it is not a parameter of
  the model.  The result is \<open>None\<close> for an image with a side of length 0: the Go code
  divides by both sides, and the quotients are then infinities or NaN, which the model does
  not have (and whose conversion to \<^verbatim>\<open>int\<close> the language leaves to the implementation).
  A derived side is the rounded exact product; for sides that are pixel counts it is far
  inside the range of \<^verbatim>\<open>int\<close>.
\<close>

definition resizeImage :: "Image \<Rightarrow> int \<Rightarrow> int \<Rightarrow> (Image \<times> real \<times> real) option" where
  "resizeImage img longerSide shorterSide =
     (let imgWidth = Dx (Bounds img);
          imgHeight = Dy (Bounds img);
          isLandscape = \<not> (imgHeight > imgWidth);
          imgLonger = (if imgHeight > imgWidth then imgHeight else imgWidth);
          imgShorter = (if imgHeight > imgWidth then imgWidth else imgHeight)
      in if imgLonger = 0 \<or> imgShorter = 0 then None
         else
           let longerSide' = (if longerSide \<le> 0
                 then go_round (real_of_int shorterSide * (real_of_int imgLonger / real_of_int imgShorter))
                 else longerSide);
               shorterSide' = (if longerSide \<le> 0 then shorterSide
                 else if shorterSide \<le> 0
                 then go_round (real_of_int longerSide * (real_of_int imgShorter / real_of_int imgLonger))
                 else shorterSide)
           in if isLandscape
              then Some (imaging_Resize img longerSide' shorterSide',
                         real_of_int longerSide' / real_of_int imgLonger,
                         real_of_int shorterSide' / real_of_int imgShorter)
              else Some (imaging_Resize img shorterSide' longerSide',
                         real_of_int shorterSide' / real_of_int imgShorter,
                         real_of_int longerSide' / real_of_int imgLonger))"

subsection \<open>Errors\<close>

text \<open>
  The errors the functions return, and \<open>RuntimePanic\<close> for a run-time panic, which ends the
  program, as does \<open>AllocationFailure\<close> (see \<open>allocate\<close>).  \<open>Unspecified\<close> marks a result
  outside the model (see \<open>resizeImage\<close>).
\<close>

datatype error =
    MalformedRule string
  | InvalidSplit
  | UnsupportedImageType string
  | UnknownFilter string
  | UnsupportedEncoding string
  | ImageIOError string
  | RuntimePanic string
  | AllocationFailure
  | Unspecified

subsection \<open>Rectangles of package image\<close>

definition ZR :: Rectangle where
  "ZR = \<lparr>MinX = 0, MinY = 0, MaxX = 0, MaxY = 0\<rparr>"

text \<open>\<^verbatim>\<open>image.Rect\<close> swaps the minimum and the maximum where needed.\<close>

definition image_Rect :: "int \<Rightarrow> int \<Rightarrow> int \<Rightarrow> int \<Rightarrow> Rectangle" where
  "image_Rect x0 y0 x1 y1 =
     \<lparr>MinX = (if x0 > x1 then x1 else x0), MinY = (if y0 > y1 then y1 else y0),
      MaxX = (if x0 > x1 then x0 else x1), MaxY = (if y0 > y1 then y0 else y1)\<rparr>"

definition Empty :: "Rectangle \<Rightarrow> bool" where
  "Empty r \<longleftrightarrow> MinX r \<ge> MaxX r \<or> MinY r \<ge> MaxY r"

definition Intersect :: "Rectangle \<Rightarrow> Rectangle \<Rightarrow> Rectangle" where
  "Intersect r s =
     (let r' = \<lparr>MinX = (if MinX r < MinX s then MinX s else MinX r),
                MinY = (if MinY r < MinY s then MinY s else MinY r),
                MaxX = (if MaxX r > MaxX s then MaxX s else MaxX r),
                MaxY = (if MaxY r > MaxY s then MaxY s else MaxY r)\<rparr>
      in if Empty r' then ZR else r')"

text \<open>
  \<^verbatim>\<open>SubImage\<close> of the image types of the standard library: the part of the image inside \<open>r\<close>.
\<close>

definition SubImage :: "Image \<Rightarrow> Rectangle \<Rightarrow> Image" where
  "SubImage img r = img\<lparr>Bounds := Intersect r (Bounds img)\<rparr>"

subsection \<open>Paths and number formatting\<close>

text \<open>
  \<^verbatim>\<open>filepath.Ext\<close>: the suffix from the last dot of the last path element, empty when that
  element has no dot.  The scan runs from the end of the path and stops at a separator.
\<close>

fun ext_scan :: "string \<Rightarrow> string \<Rightarrow> string" where
  "ext_scan [] acc = []"
| "ext_scan (c # cs) acc =
     (if c = CHR ''/'' then []
      else if c = CHR ''.'' then c # acc
      else ext_scan cs (c # acc))"

definition filepath_Ext :: "string \<Rightarrow> string" where
  "filepath_Ext path = ext_scan (rev path) []"

text \<open>
  \<^verbatim>\<open>filepath.Base\<close>: the last element of the path, trailing separators removed; \<open>.\<close> for the
  empty path and \<open>/\<close> for a path of separators only.
\<close>

definition filepath_Base :: "string \<Rightarrow> string" where
  "filepath_Base path =
     (if path = [] then ''.''
      else let p = rev (dropWhile (\<lambda>c. c = CHR ''/'') (rev path))
           in if p = [] then ''/''
              else rev (takeWhile (\<lambda>c. c \<noteq> CHR ''/'') (rev p)))"

definition digit :: "nat \<Rightarrow> char" where
  "digit n = ''0123456789'' ! n"

function decimal :: "nat \<Rightarrow> string" where
  "decimal n = (if n < 10 then [digit n] else decimal (n div 10) @ [digit (n mod 10)])"
  by pat_completeness auto
termination
  by (relation "measure (\<lambda>n. n)") auto

declare decimal.simps [simp del]

text \<open>The verbs \<^verbatim>\<open>%d\<close> and \<^verbatim>\<open>%02d\<close> of \<^verbatim>\<open>fmt.Sprintf\<close>.\<close>

definition fmt_d :: "int \<Rightarrow> string" where
  "fmt_d i = (if i < 0 then CHR ''-'' # decimal (nat (- i)) else decimal (nat i))"

definition fmt_02d :: "nat \<Rightarrow> string" where
  "fmt_02d i = (if i < 10 then CHR ''0'' # decimal i else decimal i)"

subsection \<open>cropObjectsFromImage\<close>

text \<open>
  \<^verbatim>\<open>int(math.Round(x))\<close>.  The rounded value is converted exactly when it is in the range of
  \<^verbatim>\<open>int\<close>, which has 64 bits.  Outside that range Go leaves the result of the conversion to
  the implementation: \<open>ovf x\<close> is the value it gives (on amd64 the least \<^verbatim>\<open>int\<close>,
  \<open>- 2 ^ 63\<close>, for every such \<open>x\<close>).
\<close>

definition fitsInt :: "real \<Rightarrow> bool" where
  "fitsInt x \<longleftrightarrow> - (2 ^ 63) \<le> go_round x \<and> go_round x < 2 ^ 63"

definition roundToInt :: "(real \<Rightarrow> int) \<Rightarrow> real \<Rightarrow> int" where
  "roundToInt ovf x = (if fitsInt x then go_round x else ovf x)"

definition clipToBounds :: "(real \<Rightarrow> int) \<Rightarrow> Image \<Rightarrow> Annotation \<Rightarrow> Rectangle" where
  "clipToBounds ovf img a =
     (case Coords a of (x1, y1, x2, y2) \<Rightarrow>
        Intersect (image_Rect (roundToInt ovf x1) (roundToInt ovf y1)
                              (roundToInt ovf x2) (roundToInt ovf y2))
                  (Bounds img))"

text \<open>
  Following the spec: the box of an annotation rounded to the nearest integer pixel
  rectangle.
\<close>

definition roundedBox :: "Annotation \<Rightarrow> Rectangle" where
  "roundedBox a =
     (case Coords a of (x1, y1, x2, y2) \<Rightarrow>
        image_Rect (go_round x1) (go_round y1) (go_round x2) (go_round y2))"

text \<open>Following the spec: the rounded box intersected with the pixel bounds of the image.\<close>

definition clippedBox :: "Image \<Rightarrow> Annotation \<Rightarrow> Rectangle" where
  "clippedBox img a = Intersect (roundedBox a) (Bounds img)"

definition coordsFitInt :: "Annotation \<Rightarrow> bool" where
  "coordsFitInt a =
     (case Coords a of (x1, y1, x2, y2) \<Rightarrow> fitsInt x1 \<and> fitsInt y1 \<and> fitsInt x2 \<and> fitsInt y2)"

definition cropCoordsString :: "Rectangle \<Rightarrow> string" where
  "cropCoordsString r =
     ''('' @ fmt_d (MinX r) @ '','' @ fmt_d (MinY r) @ '')(''
       @ fmt_d (MaxX r) @ '','' @ fmt_d (MaxY r) @ '')''"

definition cropPath :: "string \<Rightarrow> nat \<Rightarrow> string" where
  "cropPath filePath i =
     (let ext = filepath_Ext filePath
      in take (length filePath - length ext) filePath @ ''_'' @ fmt_02d i @ ext)"

definition cropFile :: "string \<Rightarrow> nat \<Rightarrow> Annotation \<Rightarrow> Rectangle \<Rightarrow> AnnotatedFile" where
  "cropFile filePath i a r =
     \<lparr>Annotations =
        [\<lparr>Attributes = (Attributes a)(CropCoords \<mapsto> AString (cropCoordsString r)),
          Coords = (0, 0, real_of_int (Dx r), real_of_int (Dy r)),
          Label = Label a\<rparr>],
      FilePath = cropPath filePath i\<rparr>"

text \<open>The loop over \<^verbatim>\<open>f.Annotations\<close>; \<open>i\<close> is the index of the head of the list.\<close>

fun cropLoop ::
  "(real \<Rightarrow> int) \<Rightarrow> Image \<Rightarrow> string \<Rightarrow> nat \<Rightarrow> Annotation list
     \<Rightarrow> Image list \<times> AnnotatedFile list" where
  "cropLoop ovf img filePath i [] = ([], [])"
| "cropLoop ovf img filePath i (a # as) =
     (let r = clipToBounds ovf img a
      in if Empty r then cropLoop ovf img filePath (i + 1) as
         else (case cropLoop ovf img filePath (i + 1) as of
                 (crops, annotatedFiles) \<Rightarrow>
                   (SubImage img r # crops, cropFile filePath i a r # annotatedFiles)))"

definition cropObjectsFromImage ::
  "(real \<Rightarrow> int) \<Rightarrow> AnnotatedFile \<Rightarrow> Image \<Rightarrow> error + (Image list \<times> AnnotatedFile list)" where
  "cropObjectsFromImage ovf f img =
     (if \<not> HasSubImage img then Inl (UnsupportedImageType (FilePath f))
      else Inr (cropLoop ovf img (FilePath f) 0 (Annotations f)))"

subsection \<open>Package strings\<close>

text \<open>\<^verbatim>\<open>strings.Split\<close> with a one-byte separator: one part more than separators.\<close>

fun splitOn :: "char \<Rightarrow> string \<Rightarrow> string list" where
  "splitOn c [] = [[]]"
| "splitOn c (x # xs) =
     (if x = c then [] # splitOn c xs
      else (case splitOn c xs of [] \<Rightarrow> [[x]] | p # ps \<Rightarrow> (x # p) # ps))"

text \<open>
  The width \<^verbatim>\<open>utf8.DecodeRuneInString\<close> returns: the length of a well-formed UTF-8 sequence
  at the head of the string, and 1 for a byte that starts none.
\<close>

definition contByte :: "nat \<Rightarrow> nat \<Rightarrow> string \<Rightarrow> nat \<Rightarrow> bool" where
  "contByte lo hi s k \<longleftrightarrow> k < length s \<and> lo \<le> of_char (s ! k) \<and> (of_char (s ! k) :: nat) \<le> hi"

definition runeWidth :: "string \<Rightarrow> nat" where
  "runeWidth s =
     (if s = [] then 0
      else let b0 = (of_char (hd s) :: nat)
           in if b0 < 0xC2 then 1
              else if b0 \<le> 0xDF then (if contByte 0x80 0xBF s 1 then 2 else 1)
              else if b0 \<le> 0xEF then
                (if length s \<ge> 3
                    \<and> contByte (if b0 = 0xE0 then 0xA0 else 0x80) (if b0 = 0xED then 0x9F else 0xBF) s 1
                    \<and> contByte 0x80 0xBF s 2 then 3 else 1)
              else if b0 \<le> 0xF4 then
                (if length s \<ge> 4
                    \<and> contByte (if b0 = 0xF0 then 0x90 else 0x80) (if b0 = 0xF4 then 0x8F else 0xBF) s 1
                    \<and> contByte 0x80 0xBF s 2 \<and> contByte 0x80 0xBF s 3 then 4 else 1)
              else 1)"

text \<open>An empty \<open>old\<close> matches after every UTF-8 sequence: \<open>new\<close> goes after each of them.\<close>

function insertAfterRunes :: "string \<Rightarrow> string \<Rightarrow> string" where
  "insertAfterRunes new s =
     (if s = [] then []
      else take (runeWidth s) s @ new @ insertAfterRunes new (drop (runeWidth s) s))"
  by pat_completeness auto
termination
  by (relation "measure (\<lambda>(new, s). length s)") (auto simp: runeWidth_def Let_def)

declare insertAfterRunes.simps [simp del]

text \<open>A non-empty \<open>old\<close>: the occurrences found from left to right, not overlapping.\<close>

function replaceAll :: "string \<Rightarrow> string \<Rightarrow> string \<Rightarrow> string" where
  "replaceAll old new [] = []"
| "replaceAll old new (c # cs) =
     (if old \<noteq> [] \<and> prefix old (c # cs)
      then new @ replaceAll old new (drop (length old) (c # cs))
      else c # replaceAll old new cs)"
  by pat_completeness auto
termination
  by (relation "measure (\<lambda>(old, new, s). length s)") (auto simp: Suc_le_eq)

text \<open>\<^verbatim>\<open>strings.Replace(s, old, new, -1)\<close>.\<close>

definition strings_Replace :: "string \<Rightarrow> string \<Rightarrow> string \<Rightarrow> string" where
  "strings_Replace s old new =
     (if old = new then s
      else if old = [] then new @ insertAfterRunes new s
      else replaceAll old new s)"

subsection \<open>MapLabels\<close>

text \<open>The first loop: every mapping must split into exactly two parts at \<^verbatim>\<open>=\<close>.\<close>

fun parseMappings :: "string list \<Rightarrow> error + (string \<times> string) list" where
  "parseMappings [] = Inr []"
| "parseMappings (v # vs) =
     (case splitOn CHR ''='' v of
        [old, new] \<Rightarrow>
          (case parseMappings vs of
             Inl e \<Rightarrow> Inl e
           | Inr replacements \<Rightarrow> Inr ((old, new) # replacements))
      | _ \<Rightarrow> Inl (MalformedRule v))"

fun applyReplacements :: "(string \<times> string) list \<Rightarrow> string \<Rightarrow> string" where
  "applyReplacements [] label = label"
| "applyReplacements ((old, new) # rs) label =
     applyReplacements rs (strings_Replace label old new)"

text \<open>
  The dataset after the call and the error returned.  The count of changed labels is only
  logged and is not part of the model.
\<close>

definition MapLabels :: "string list \<Rightarrow> AnnotatedFiles \<Rightarrow> AnnotatedFiles \<times> error option" where
  "MapLabels mappings data =
     (if mappings = [] then (data, None)
      else case parseMappings mappings of
             Inl e \<Rightarrow> (data, Some e)
           | Inr replacements \<Rightarrow>
               (map (\<lambda>f. f\<lparr>Annotations :=
                             map (\<lambda>a. a\<lparr>Label := applyReplacements replacements (Label a)\<rparr>)
                                 (Annotations f)\<rparr>) data,
                None))"

subsection \<open>Filter\<close>

record FilterArgs =
  labelNames :: "string list"
  attributes :: "string list"
  requiredAttrs :: "string list"
  minConfidence :: real
  requireLabel :: bool
  minBboxWidth :: real
  minBboxHeight :: real
  minAspectRatio :: real
  maxAspectRatio :: real

text \<open>\<^verbatim>\<open>annotations[i] = annotations[l-1]; return annotations[:l-1]\<close>\<close>

definition deleteAnnotation :: "'a list \<Rightarrow> nat \<Rightarrow> 'a list" where
  "deleteAnnotation annotations i = butlast (annotations[i := last annotations])"

fun inList :: "string \<Rightarrow> string list \<Rightarrow> bool" where
  "inList v [] = False"
| "inList v (val # l) = (if val = v then True else inList v l)"

text \<open>The type assertion to \<^verbatim>\<open>float64\<close> fails for a missing key and for the other kinds.\<close>

definition belowMinConfidence :: "real \<Rightarrow> Annotation \<Rightarrow> bool" where
  "belowMinConfidence minConf a =
     (case Attributes a Confidence of Some (AFloat c) \<Rightarrow> c < minConf | _ \<Rightarrow> False)"

definition bboxTooSmall :: "real \<Rightarrow> real \<Rightarrow> Annotation \<Rightarrow> bool" where
  "bboxTooSmall minW minH a \<longleftrightarrow> minW > Width a \<or> minH > Height a"

definition aspectRatioRejected :: "real \<Rightarrow> real \<Rightarrow> Annotation \<Rightarrow> bool" where
  "aspectRatioRejected minAR maxAR a =
     (if minAR \<noteq> 0 \<or> maxAR \<noteq> 0 then
        (let keep = (if Height a \<noteq> 0
                     then (minAR = 0 \<or> Width a / Height a \<ge> minAR)
                        \<and> (maxAR = 0 \<or> Width a / Height a \<le> maxAR)
                     else False)
         in \<not> keep)
      else False)"

definition labelRejected :: "string list \<Rightarrow> Annotation \<Rightarrow> bool" where
  "labelRejected names a \<longleftrightarrow> length names > 0 \<and> \<not> inList (Label a) names"

text \<open>
  \<^verbatim>\<open>v == reflect.Zero(reflect.TypeOf(v)).Interface()\<close> compares two interface values of the
  dynamic type of \<open>v\<close>.  For \<^verbatim>\<open>float64\<close>, \<^verbatim>\<open>string\<close> and \<^verbatim>\<open>bool\<close> that is the
  comparison with 0, the empty string and false.  A \<^verbatim>\<open>[]string\<close> is not comparable, and
  comparing two interface values of that type panics at run time.
\<close>

fun isZeroValue :: "attr \<Rightarrow> error + bool" where
  "isZeroValue (AFloat x) = Inr (x = 0)"
| "isZeroValue (AString s) = Inr (s = [])"
| "isZeroValue (ABool b) = Inr (\<not> b)"
| "isZeroValue (AStrList l) = Inl (RuntimePanic ''comparing uncomparable type []string'')"

text \<open>
  The loop over \<open>requiredAttrs\<close>: \<open>Inr True\<close> when the annotation is to be deleted, at the
  first required attribute that is missing or has the zero value of its type.
\<close>

fun requiredAttrFails :: "(string \<rightharpoonup> attr) \<Rightarrow> string list \<Rightarrow> error + bool" where
  "requiredAttrFails attrs [] = Inr False"
| "requiredAttrFails attrs (k # ks) =
     (case attrs k of
        None \<Rightarrow> Inr True
      | Some v \<Rightarrow>
          (case isZeroValue v of
             Inl e \<Rightarrow> Inl e
           | Inr True \<Rightarrow> Inr True
           | Inr False \<Rightarrow> requiredAttrFails attrs ks))"

definition filterAttributes :: "string list \<Rightarrow> Annotation \<Rightarrow> Annotation" where
  "filterAttributes attrNames a =
     (if length attrNames > 0
      then a\<lparr>Attributes := (\<lambda>k. if inList k attrNames then Attributes a k else None)\<rparr>
      else a)"

text \<open>
  The body of the annotation loop for one annotation: \<open>Inr None\<close> when it is deleted,
  \<open>Inr (Some a')\<close> when it stays, with the attributes filtered.
\<close>

definition checkAnnotation :: "FilterArgs \<Rightarrow> Annotation \<Rightarrow> error + Annotation option" where
  "checkAnnotation P a =
     (if belowMinConfidence (minConfidence P) a then Inr None
      else if bboxTooSmall (minBboxWidth P) (minBboxHeight P) a then Inr None
      else if aspectRatioRejected (minAspectRatio P) (maxAspectRatio P) a then Inr None
      else if labelRejected (labelNames P) a then Inr None
      else case requiredAttrFails (Attributes a) (requiredAttrs P) of
             Inl e \<Rightarrow> Inl e
           | Inr True \<Rightarrow> Inr None
           | Inr False \<Rightarrow> Inr (Some (filterAttributes (attributes P) a)))"

text \<open>
  The annotation loop.  The variable \<^verbatim>\<open>aLen\<close> of the source is decremented exactly when the
  slice loses an element, so it is the length of the list.  After a deletion the index is
  decremented and then incremented by the loop: the element moved to position \<open>i\<close> is
  examined next.
\<close>

function annotationLoop :: "FilterArgs \<Rightarrow> nat \<Rightarrow> Annotation list \<Rightarrow> error + Annotation list" where
  "annotationLoop P i annotations =
     (if i < length annotations then
        (case checkAnnotation P (annotations ! i) of
           Inl e \<Rightarrow> Inl e
         | Inr None \<Rightarrow> annotationLoop P i (deleteAnnotation annotations i)
         | Inr (Some a') \<Rightarrow> annotationLoop P (i + 1) (annotations[i := a']))
      else Inr annotations)"
  by pat_completeness auto
termination
  by (relation "measure (\<lambda>(P, i, annotations). length annotations - i)")
     (auto simp: deleteAnnotation_def)

declare annotationLoop.simps [simp del]

text \<open>
  The loop over the files; \<^verbatim>\<open>dataLen\<close> is the length of the list.  A file left without
  annotations is overwritten by the last file and the list is shortened, when
  \<open>requireLabel\<close> is set.
\<close>

function fileLoop :: "FilterArgs \<Rightarrow> nat \<Rightarrow> AnnotatedFiles \<Rightarrow> error + AnnotatedFiles" where
  "fileLoop P dataIdx data =
     (if dataIdx < length data then
        (case annotationLoop P 0 (Annotations (data ! dataIdx)) of
           Inl e \<Rightarrow> Inl e
         | Inr annotations \<Rightarrow>
             (let data' = data[dataIdx := (data ! dataIdx)\<lparr>Annotations := annotations\<rparr>]
              in if requireLabel P \<and> length annotations = 0
                 then fileLoop P dataIdx (butlast (data'[dataIdx := last data']))
                 else fileLoop P (dataIdx + 1) data'))
      else Inr data)"
  by pat_completeness auto
termination
  by (relation "measure (\<lambda>(P, dataIdx, data). length data - dataIdx)") auto

declare fileLoop.simps [simp del]

definition Filter :: "FilterArgs \<Rightarrow> AnnotatedFiles \<Rightarrow> error + AnnotatedFiles" where
  "Filter P data = fileLoop P 0 data"

subsection \<open>ProcessImages\<close>

text \<open>
  The file system is a parameter: what \<^verbatim>\<open>loadImage\<close> returns for a path, whether
  \<^verbatim>\<open>saveImage\<close> succeeds, and \<^verbatim>\<open>filepath.Join\<close>; so is the value the implementation
  gives to the conversion of an out-of-range \<^verbatim>\<open>float64\<close> to \<^verbatim>\<open>int\<close>.  Every call that reads
  or writes an image is recorded in a trace.  The JPEG quality only reaches the encoder and is
  left out.
\<close>

datatype io = ReadImage string | WriteImage string Image

record Env =
  loadImage :: "string \<Rightarrow> error + Image"
  saveImage :: "string \<Rightarrow> Image \<Rightarrow> error option"
  filepath_Join :: "string \<Rightarrow> string \<Rightarrow> string"
  intOverflow :: "real \<Rightarrow> int"

text \<open>
  The loop of \<^verbatim>\<open>processImage\<close> over the original image or the crops: the files whose image
  was saved, the trace, and the error that ended the loop.
\<close>

fun processItems ::
  "Env \<Rightarrow> string \<Rightarrow> string \<Rightarrow> int \<Rightarrow> int \<Rightarrow> bool \<Rightarrow> (Image \<times> AnnotatedFile) list
     \<Rightarrow> AnnotatedFile list \<times> io list \<times> error option" where
  "processItems env imageOutDir fileExt longerSide shorterSide doResizeImage [] = ([], [], None)"
| "processItems env imageOutDir fileExt longerSide shorterSide doResizeImage ((img, d) # rest) =
     (case (if doResizeImage then resizeImage img longerSide shorterSide else Some (img, 0, 0)) of
        None \<Rightarrow> ([], [], Some Unspecified)
      | Some (img', scaleWidth, scaleHeight) \<Rightarrow>
          (let inName = filepath_Base (FilePath d);
               inFileExt = filepath_Ext inName;
               outName = take (length inName - length inFileExt) inName @ fileExt;
               outPath = filepath_Join env imageOutDir outName
           in case saveImage env outPath img' of
                Some e \<Rightarrow> ([], [WriteImage outPath img'], Some e)
              | None \<Rightarrow>
                  (let d' = d\<lparr>FilePath := outPath\<rparr>;
                       d'' = (if doResizeImage then scaleCoords scaleWidth scaleHeight d' else d')
                   in case processItems env imageOutDir fileExt longerSide shorterSide
                             doResizeImage rest of
                        (ds, tr, err) \<Rightarrow> (d'' # ds, WriteImage outPath img' # tr, err))))"

text \<open>
  \<^verbatim>\<open>processImage\<close>: the file after the call, the files sent to \<^verbatim>\<open>croppedData\<close>, the trace
  and the error sent to the error channel.
\<close>

definition processImage ::
  "Env \<Rightarrow> string \<Rightarrow> string \<Rightarrow> int \<Rightarrow> int \<Rightarrow> bool \<Rightarrow> bool \<Rightarrow> AnnotatedFile
     \<Rightarrow> AnnotatedFile \<times> AnnotatedFile list \<times> io list \<times> error option" where
  "processImage env imageOutDir fileExt longerSide shorterSide doCropObjects doResizeImage d =
     (case loadImage env (FilePath d) of
        Inl e \<Rightarrow> (d, [], [ReadImage (FilePath d)], Some e)
      | Inr img \<Rightarrow>
          if doCropObjects then
            (case cropObjectsFromImage (intOverflow env) d img of
               Inl e \<Rightarrow> (d, [], [ReadImage (FilePath d)], Some e)
             | Inr (images, tmpData) \<Rightarrow>
                 (case processItems env imageOutDir fileExt longerSide shorterSide doResizeImage
                         (zip images tmpData) of
                    (ds, tr, err) \<Rightarrow> (d, ds, ReadImage (FilePath d) # tr, err)))
          else
            (case processItems env imageOutDir fileExt longerSide shorterSide doResizeImage
                    [(img, d)] of
               (ds, tr, err) \<Rightarrow>
                 ((case ds of [] \<Rightarrow> d | d' # _ \<Rightarrow> d'), [], ReadImage (FilePath d) # tr, err)))"

text \<open>
  The worker pool, in the schedule that takes the files one after the other in the order of
  the dataset: the slots of the dataset, the files collected from \<^verbatim>\<open>croppedData\<close>, the trace
  and the first error.
\<close>

fun processAll ::
  "Env \<Rightarrow> string \<Rightarrow> string \<Rightarrow> int \<Rightarrow> int \<Rightarrow> bool \<Rightarrow> bool \<Rightarrow> AnnotatedFiles
     \<Rightarrow> AnnotatedFiles \<times> AnnotatedFiles \<times> io list \<times> error option" where
  "processAll env imageOutDir fileExt longerSide shorterSide doCropObjects doResizeImage [] =
     ([], [], [], None)"
| "processAll env imageOutDir fileExt longerSide shorterSide doCropObjects doResizeImage (d # ds) =
     (case processImage env imageOutDir fileExt longerSide shorterSide doCropObjects
             doResizeImage d of
        (d', cropped, tr, err) \<Rightarrow>
          (case processAll env imageOutDir fileExt longerSide shorterSide doCropObjects
                  doResizeImage ds of
             (ds', cropped', tr', err') \<Rightarrow>
               (d' # ds', cropped @ cropped', tr @ tr',
                (case err of Some e \<Rightarrow> Some e | None \<Rightarrow> err'))))"

definition knownFilter :: "string \<Rightarrow> bool" where
  "knownFilter name \<longleftrightarrow> inList name [''nearest'', ''box'', ''linear'', ''gaussian'', ''lanczos'']"

text \<open>
  \<^verbatim>\<open>strings.ToLower\<close> on the letters A to Z; no other character is mapped to a letter of
  the three encoding names.
\<close>

definition toLower :: "string \<Rightarrow> string" where
  "toLower s =
     map (\<lambda>c. if (65 :: nat) \<le> of_char c \<and> (of_char c :: nat) \<le> 90
               then char_of (of_char c + (32 :: nat)) else c) s"

definition outputFileExt :: "string \<Rightarrow> string option" where
  "outputFileExt encoding =
     (let e = toLower encoding
      in if e = ''jpg'' \<or> e = ''jpeg'' then Some ''.jpg''
         else if e = ''png'' then Some ''.png''
         else None)"

text \<open>\<^verbatim>\<open>ProcessImages\<close>: the dataset after the call, the trace and the error returned.\<close>

definition ProcessImages ::
  "Env \<Rightarrow> string \<Rightarrow> int \<Rightarrow> int \<Rightarrow> string \<Rightarrow> string \<Rightarrow> string \<Rightarrow> bool \<Rightarrow> AnnotatedFiles
     \<Rightarrow> AnnotatedFiles \<times> io list \<times> error option" where
  "ProcessImages env imageOutDir longerSide shorterSide downsamplingFilter upsamplingFilter
      encoding doCropObjects data =
     (let doResizeImages = longerSide > 0 \<or> shorterSide > 0
      in if \<not> doResizeImages \<and> \<not> doCropObjects then (data, [], None)
         else if \<not> knownFilter downsamplingFilter
           then (data, [], Some (UnknownFilter downsamplingFilter))
         else if \<not> knownFilter upsamplingFilter
           then (data, [], Some (UnknownFilter upsamplingFilter))
         else case outputFileExt encoding of
                None \<Rightarrow> (data, [], Some (UnsupportedEncoding encoding))
              | Some fileExt \<Rightarrow>
                  (case processAll env imageOutDir fileExt longerSide shorterSide doCropObjects
                          doResizeImages data of
                     (slots, cropped, tr, err) \<Rightarrow>
                       ((if doCropObjects then cropped else slots), tr, err)))"

subsection \<open>Split\<close>

text \<open>
  The capacity of the slice allocated for a bucket,
  \<^verbatim>\<open>int(1.05*float64(percent)/100*float64(len(*data)))\<close>, truncated towards zero.  Only its
  sign is used: \<^verbatim>\<open>make\<close> panics at run time on a negative capacity.  The product is taken
  exactly here.  The truncated value is negative when the product is at most -1; for the
  integer \<open>percent * len\<close> the exact product is at least -0.9975 or at most -1.008, so the
  rounding of the \<^verbatim>\<open>float64\<close> operations does not change the sign.
\<close>

definition capacity :: "int \<Rightarrow> nat \<Rightarrow> int" where
  "capacity percent n =
     (let x = 105 * percent * int n
      in if x < 0 then - ((- x) div 10000) else x div 10000)"

text \<open>
  The allocation loop; it returns the last value of \<^verbatim>\<open>sum\<close>.  On a negative capacity
  \<^verbatim>\<open>make\<close> panics.  Whether it returns a slice of a non-negative capacity depends on the
  run-time system: above its allocation limit \<^verbatim>\<open>make\<close> panics as well, and a capacity below
  the limit that the memory cannot hold ends the program with the fatal error out of memory.
  \<open>makeSlice percent n\<close> tells whether the call for a step of \<open>percent\<close> and \<open>n\<close> files
  returns; when it does not, the outcome is \<open>AllocationFailure\<close>.
\<close>

fun allocate :: "(int \<Rightarrow> nat \<Rightarrow> bool) \<Rightarrow> nat \<Rightarrow> int \<Rightarrow> int list \<Rightarrow> error + int" where
  "allocate makeSlice n sumSoFar [] = Inr sumSoFar"
| "allocate makeSlice n sumSoFar (s # ss) =
     (if capacity (s - sumSoFar) n < 0 then Inl (RuntimePanic ''makeslice: cap out of range'')
      else if \<not> makeSlice (s - sumSoFar) n then Inl AllocationFailure
      else allocate makeSlice n s ss)"

text \<open>The inner loop: the index of the first boundary above the draw.\<close>

fun bucketOf :: "int \<Rightarrow> int list \<Rightarrow> nat option" where
  "bucketOf r [] = None"
| "bucketOf r (s # ss) = (if r < s then Some 0 else map_option Suc (bucketOf r ss))"

text \<open>
  The loop over the files.  \<open>draw k\<close> is the value \<^verbatim>\<open>rng.Intn(100)\<close> returns for the file
  at index \<open>k\<close>; a file whose draw is below no boundary is put in no dataset.
\<close>

fun splitLoop ::
  "(nat \<Rightarrow> int) \<Rightarrow> int list \<Rightarrow> nat \<Rightarrow> AnnotatedFile list \<Rightarrow> AnnotatedFiles list \<Rightarrow> AnnotatedFiles list" where
  "splitLoop draw cumulativeSplits k [] datasets = datasets"
| "splitLoop draw cumulativeSplits k (d # ds) datasets =
     splitLoop draw cumulativeSplits (k + 1) ds
       (case bucketOf (draw k) cumulativeSplits of
          None \<Rightarrow> datasets
        | Some i \<Rightarrow> datasets[i := datasets ! i @ [d]])"

definition Split ::
  "(int \<Rightarrow> nat \<Rightarrow> bool) \<Rightarrow> (nat \<Rightarrow> int) \<Rightarrow> int list \<Rightarrow> AnnotatedFiles
     \<Rightarrow> error + AnnotatedFiles list" where
  "Split makeSlice draw cumulativeSplits data =
     (case allocate makeSlice (length data) 0 cumulativeSplits of
        Inl e \<Rightarrow> Inl e
      | Inr sumSoFar \<Rightarrow>
          if sumSoFar \<noteq> 100 then Inl InvalidSplit
          else Inr (splitLoop draw cumulativeSplits 0 data
                      (replicate (length cumulativeSplits) [])))"

section \<open>Properties\<close>

subsection \<open>The loops of Filter\<close>

text \<open>
  What the two loops return: the positions before the start index are untouched, and every
  annotation from the start index on is the result of a successful check.  A list whose
  elements the check leaves as they are is returned unchanged.
\<close>

lemma take_deleteAnnotation: "i < length xs \<Longrightarrow> take i (deleteAnnotation xs i) = take i xs"
  by (simp add: deleteAnnotation_def take_butlast)

lemma take_Suc_eq_imp:
  assumes "take (Suc i) ys = take (Suc i) (xs[i := a])" and "i < length xs"
  shows "i < length ys \<and> ys ! i = a \<and> take i ys = take i xs"
proof -
  have len: "length (take (Suc i) ys) = Suc i"
    using assms by simp
  then have l: "i < length ys" by auto
  have "ys ! i = take (Suc i) ys ! i" by simp
  also have "\<dots> = take (Suc i) (xs[i := a]) ! i" using assms by simp
  also have "\<dots> = a" using assms by simp
  finally have n: "ys ! i = a" .
  have "take i ys = take i (take (Suc i) ys)" by (simp add: min_def)
  also have "\<dots> = take i (take (Suc i) (xs[i := a]))" using assms by simp
  also have "\<dots> = take i xs" by (simp add: min_def)
  finally show ?thesis using l n by simp
qed

lemma annotationLoop_result:
  "annotationLoop P i anns = Inr anns' \<Longrightarrow>
     take i anns' = take i anns \<and>
     (\<forall>b \<in> set (drop i anns'). \<exists>a. checkAnnotation P a = Inr (Some b))"
proof (induction P i anns arbitrary: anns' rule: annotationLoop.induct)
  case (1 P i anns)
  show ?case
  proof (cases "i < length anns")
    case False
    with "1.prems" have "anns' = anns"
      by (simp add: annotationLoop.simps)
    with False show ?thesis by simp
  next
    case True
    show ?thesis
    proof (cases "checkAnnotation P (anns ! i)")
      case (Inl e)
      with True "1.prems" show ?thesis
        by (simp add: annotationLoop.simps)
    next
      case (Inr v)
      show ?thesis
      proof (cases v)
        case None
        with True Inr "1.prems" have run: "annotationLoop P i (deleteAnnotation anns i) = Inr anns'"
          by (simp add: annotationLoop.simps)
        from "1.IH"(1) [OF True Inr None run] True show ?thesis
          by (simp add: take_deleteAnnotation)
      next
        case (Some a')
        with True Inr "1.prems" have run: "annotationLoop P (i + 1) (anns[i := a']) = Inr anns'"
          by (simp add: annotationLoop.simps)
        from "1.IH"(2) [OF True Inr Some run]
        have t: "take (Suc i) anns' = take (Suc i) (anns[i := a'])"
          and r: "\<forall>b\<in>set (drop (Suc i) anns'). \<exists>a. checkAnnotation P a = Inr (Some b)"
          by simp_all
        from take_Suc_eq_imp [OF t True]
        have l: "i < length anns'" and n: "anns' ! i = a'" and t': "take i anns' = take i anns"
          by simp_all
        have "drop i anns' = a' # drop (Suc i) anns'"
          using Cons_nth_drop_Suc [OF l] n by simp
        with r Inr Some t' show ?thesis by auto
      qed
    qed
  qed
qed

lemma annotationLoop_fixed:
  "\<forall>k. i \<le> k \<and> k < length anns \<longrightarrow> checkAnnotation P (anns ! k) = Inr (Some (anns ! k))
   \<Longrightarrow> annotationLoop P i anns = Inr anns"
proof (induction "length anns - i" arbitrary: i)
  case 0
  then show ?case by (simp add: annotationLoop.simps)
next
  case (Suc n)
  then have lt: "i < length anns" by simp
  with Suc.prems have c: "checkAnnotation P (anns ! i) = Inr (Some (anns ! i))" by simp
  have "annotationLoop P (Suc i) anns = Inr anns"
    using Suc by (intro Suc.hyps(1)) auto
  with lt c show ?case by (subst annotationLoop.simps) simp
qed


lemma inList_iff: "inList v l \<longleftrightarrow> v \<in> set l"
  by (induction l) auto

lemma requiredAttrFails_cong:
  "\<forall>k \<in> set ks. m k = m' k \<Longrightarrow> requiredAttrFails m ks = requiredAttrFails m' ks"
  by (induction ks) (auto split: option.splits sum.splits bool.splits)

lemma filterAttributes_geometry:
  "Coords (filterAttributes as a) = Coords a" "Label (filterAttributes as a) = Label a"
  "Width (filterAttributes as a) = Width a" "Height (filterAttributes as a) = Height a"
  by (simp_all add: filterAttributes_def Width_def Height_def)

lemma filterAttributes_preds:
  "bboxTooSmall w h (filterAttributes as a) = bboxTooSmall w h a"
  "aspectRatioRejected x y (filterAttributes as a) = aspectRatioRejected x y a"
  "labelRejected ns (filterAttributes as a) = labelRejected ns a"
  by (simp_all add: bboxTooSmall_def aspectRatioRejected_def labelRejected_def
        filterAttributes_geometry)

lemma filterAttributes_idem:
  "filterAttributes as (filterAttributes as a) = filterAttributes as a"
  by (simp add: filterAttributes_def fun_eq_iff)

lemma belowMinConfidence_filterAttributes:
  "\<not> belowMinConfidence c a \<Longrightarrow> \<not> belowMinConfidence c (filterAttributes as a)"
  by (simp add: belowMinConfidence_def filterAttributes_def)

lemma checkAnnotation_idem:
  assumes "checkAnnotation P a = Inr (Some b)"
    and "attributes P = [] \<or> set (requiredAttrs P) \<subseteq> set (attributes P)"
  shows "checkAnnotation P b = Inr (Some b)"
proof -
  from assms(1) have b: "b = filterAttributes (attributes P) a"
    and c1: "\<not> belowMinConfidence (minConfidence P) a"
    and c2: "\<not> bboxTooSmall (minBboxWidth P) (minBboxHeight P) a"
    and c3: "\<not> aspectRatioRejected (minAspectRatio P) (maxAspectRatio P) a"
    and c4: "\<not> labelRejected (labelNames P) a"
    and c5: "requiredAttrFails (Attributes a) (requiredAttrs P) = Inr False"
    by (auto simp: checkAnnotation_def split: if_splits sum.splits bool.splits)
  have d1: "\<not> belowMinConfidence (minConfidence P) b"
    using c1 b by (simp add: belowMinConfidence_filterAttributes)
  have d2: "\<not> bboxTooSmall (minBboxWidth P) (minBboxHeight P) b"
    using c2 b by (simp add: filterAttributes_preds)
  have d3: "\<not> aspectRatioRejected (minAspectRatio P) (maxAspectRatio P) b"
    using c3 b by (simp add: filterAttributes_preds)
  have d4: "\<not> labelRejected (labelNames P) b"
    using c4 b by (simp add: filterAttributes_preds)
  have "\<forall>k \<in> set (requiredAttrs P). Attributes b k = Attributes a k"
    using assms(2) b by (auto simp: filterAttributes_def inList_iff)
  then have d5: "requiredAttrFails (Attributes b) (requiredAttrs P) = Inr False"
    using c5 requiredAttrFails_cong [of "requiredAttrs P" "Attributes b" "Attributes a"] by simp
  have "filterAttributes (attributes P) b = b"
    using b by (simp add: filterAttributes_idem)
  with d1 d2 d3 d4 d5 show ?thesis
    by (simp add: checkAnnotation_def)
qed

lemma annotationLoop_idem:
  assumes "annotationLoop P 0 anns = Inr anns'"
    and "attributes P = [] \<or> set (requiredAttrs P) \<subseteq> set (attributes P)"
  shows "annotationLoop P 0 anns' = Inr anns'"
proof -
  from annotationLoop_result [OF assms(1)]
  have "\<forall>b\<in>set anns'. \<exists>a. checkAnnotation P a = Inr (Some b)" by simp
  then have "\<forall>b\<in>set anns'. checkAnnotation P b = Inr (Some b)"
    using checkAnnotation_idem assms(2) by blast
  then show ?thesis
    by (intro annotationLoop_fixed) simp
qed

lemma fileLoop_result:
  "fileLoop P k data = Inr data' \<Longrightarrow>
     take k data' = take k data \<and>
     (\<forall>f \<in> set (drop k data').
        (\<exists>anns. annotationLoop P 0 anns = Inr (Annotations f))
        \<and> (requireLabel P \<longrightarrow> Annotations f \<noteq> []))"
proof (induction P k data arbitrary: data' rule: fileLoop.induct)
  case (1 P k data)
  show ?case
  proof (cases "k < length data")
    case False
    with "1.prems" have "data' = data"
      by (simp add: fileLoop.simps)
    with False show ?thesis by simp
  next
    case True
    show ?thesis
    proof (cases "annotationLoop P 0 (Annotations (data ! k))")
      case (Inl e)
      with True "1.prems" show ?thesis
        by (simp add: fileLoop.simps)
    next
      case (Inr anns)
      define x where "x = data[k := (data ! k)\<lparr>Annotations := anns\<rparr>]"
      show ?thesis
      proof (cases "requireLabel P \<and> length anns = 0")
        case del: True
        with True Inr "1.prems" have run: "fileLoop P k (butlast (x[k := last x])) = Inr data'"
          by (simp add: fileLoop.simps [of P k data] x_def Let_def)
        have "take k (butlast (x[k := last x])) = take k data"
          using True by (simp add: take_butlast x_def)
        with "1.IH"(1) [OF True Inr x_def del run] show ?thesis
          by simp
      next
        case keep: False
        with True Inr "1.prems" have run: "fileLoop P (k + 1) x = Inr data'"
          by (auto simp: fileLoop.simps [of P k data] x_def Let_def split: if_splits)
        from "1.IH"(2) [OF True Inr x_def keep run]
        have t: "take (Suc k) data' = take (Suc k) (data[k := (data ! k)\<lparr>Annotations := anns\<rparr>])"
          and r: "\<forall>f\<in>set (drop (Suc k) data').
                    (\<exists>anns. annotationLoop P 0 anns = Inr (Annotations f))
                    \<and> (requireLabel P \<longrightarrow> Annotations f \<noteq> [])"
          by (simp_all add: x_def)
        from take_Suc_eq_imp [OF t True]
        have l: "k < length data'" and n: "data' ! k = (data ! k)\<lparr>Annotations := anns\<rparr>"
          and t': "take k data' = take k data"
          by simp_all
        have "drop k data' = (data ! k)\<lparr>Annotations := anns\<rparr> # drop (Suc k) data'"
          using Cons_nth_drop_Suc [OF l] n by simp
        with r Inr keep t' show ?thesis by auto
      qed
    qed
  qed
qed

lemma fileLoop_fixed:
  "\<forall>j. k \<le> j \<and> j < length data \<longrightarrow>
      annotationLoop P 0 (Annotations (data ! j)) = Inr (Annotations (data ! j))
      \<and> (requireLabel P \<longrightarrow> Annotations (data ! j) \<noteq> [])
   \<Longrightarrow> fileLoop P k data = Inr data"
proof (induction "length data - k" arbitrary: k)
  case 0
  then show ?case by (simp add: fileLoop.simps)
next
  case (Suc n)
  then have lt: "k < length data" by simp
  with Suc.prems
  have c: "annotationLoop P 0 (Annotations (data ! k)) = Inr (Annotations (data ! k))"
    and ne: "requireLabel P \<longrightarrow> Annotations (data ! k) \<noteq> []" by simp_all
  have "fileLoop P (Suc k) data = Inr data"
    using Suc by (intro Suc.hyps(1)) auto
  with lt c ne show ?case by (subst fileLoop.simps) (auto simp: Let_def)
qed

lemmas Filter_eval = Filter_def fileLoop.simps annotationLoop.simps checkAnnotation_def
  belowMinConfidence_def bboxTooSmall_def aspectRatioRejected_def labelRejected_def
  filterAttributes_def deleteAnnotation_def Width_def Height_def Confidence_def
  AncestorLabels_def Let_def

subsection \<open>Required attributes\<close>

text \<open>
  C1. For attribute values of the four kinds, Filter with a non-empty list of required
  attributes should end without a run-time error and delete an annotation exactly when a
  required attribute is missing or has the empty value of its kind.  The code does not:
  on a required attribute that holds a list of strings the comparison with the zero value
  panics.  Here the annotation has the attribute \<open>Ancestors\<close> with the list \<open>[Animal]\<close>,
  as the parser of AWS detect-labels files stores it, and \<open>Ancestors\<close> is required.
\<close>

theorem Filter_required_string_list_panics:
  "Filter \<lparr>labelNames = [], attributes = [], requiredAttrs = [''Ancestors''],
           minConfidence = 0, requireLabel = False, minBboxWidth = 0, minBboxHeight = 0,
           minAspectRatio = 0, maxAspectRatio = 0\<rparr>
     [\<lparr>Annotations = [\<lparr>Attributes = [''Ancestors'' \<mapsto> AStrList [''Animal'']],
                       Coords = (0, 0, 10, 10), Label = ''Dog''\<rparr>], FilePath = ''a.jpg''\<rparr>]
   = Inl (RuntimePanic ''comparing uncomparable type []string'')"
  by (simp add: Filter_eval)

subsection \<open>Idempotence of Filter\<close>

text \<open>
  C4, as stated: applying Filter a second time with the same arguments changes nothing.
  This fails when a required attribute is not in the list of attributes to keep: the first
  application keeps the annotation and deletes the attribute, the second application
  deletes the annotation.
\<close>

theorem Filter_not_idempotent:
  "Filter \<lparr>labelNames = [], attributes = [''Text''], requiredAttrs = [''Confidence''],
           minConfidence = 0, requireLabel = False, minBboxWidth = 0, minBboxHeight = 0,
           minAspectRatio = 0, maxAspectRatio = 0\<rparr>
     [\<lparr>Annotations = [\<lparr>Attributes = [''Confidence'' \<mapsto> AFloat 1], Coords = (0, 0, 1, 1),
                       Label = ''cat''\<rparr>], FilePath = ''a.jpg''\<rparr>]
   = Inr [\<lparr>Annotations = [\<lparr>Attributes = Map.empty, Coords = (0, 0, 1, 1), Label = ''cat''\<rparr>],
           FilePath = ''a.jpg''\<rparr>]
   \<and>
   Filter \<lparr>labelNames = [], attributes = [''Text''], requiredAttrs = [''Confidence''],
           minConfidence = 0, requireLabel = False, minBboxWidth = 0, minBboxHeight = 0,
           minAspectRatio = 0, maxAspectRatio = 0\<rparr>
     [\<lparr>Annotations = [\<lparr>Attributes = Map.empty, Coords = (0, 0, 1, 1), Label = ''cat''\<rparr>],
       FilePath = ''a.jpg''\<rparr>]
   \<noteq> Inr [\<lparr>Annotations = [\<lparr>Attributes = Map.empty, Coords = (0, 0, 1, 1), Label = ''cat''\<rparr>],
           FilePath = ''a.jpg''\<rparr>]"
  by (simp add: Filter_eval fun_eq_iff)

text \<open>
  C4, amended: when the list of attributes to keep is empty or contains every required
  attribute, and the first application of Filter returns, a second application with the
  same arguments returns the same dataset.
\<close>

theorem Filter_idempotent:
  assumes "Filter P data = Inr data'"
    and "attributes P = [] \<or> set (requiredAttrs P) \<subseteq> set (attributes P)"
  shows "Filter P data' = Inr data'"
proof -
  from assms(1) fileLoop_result [of P 0 data data']
  have "\<forall>f \<in> set data'. (\<exists>anns. annotationLoop P 0 anns = Inr (Annotations f))
                        \<and> (requireLabel P \<longrightarrow> Annotations f \<noteq> [])"
    by (simp add: Filter_def)
  then have "\<forall>f \<in> set data'. annotationLoop P 0 (Annotations f) = Inr (Annotations f)
                        \<and> (requireLabel P \<longrightarrow> Annotations f \<noteq> [])"
    using annotationLoop_idem assms(2) by blast
  then show ?thesis
    unfolding Filter_def by (intro fileLoop_fixed) simp
qed

theorem Filter_idempotent_witness:
  "Filter \<lparr>labelNames = [''cat''], attributes = [''Confidence''], requiredAttrs = [''Confidence''],
           minConfidence = 1 / 2, requireLabel = True, minBboxWidth = 1, minBboxHeight = 1,
           minAspectRatio = 0, maxAspectRatio = 4\<rparr>
     [\<lparr>Annotations = [\<lparr>Attributes = [''Confidence'' \<mapsto> AFloat (2 / 5)], Coords = (0, 0, 4, 4),
                       Label = ''cat''\<rparr>], FilePath = ''a.jpg''\<rparr>,
      \<lparr>Annotations = [\<lparr>Attributes = Map.empty, Coords = (0, 0, 2, 2), Label = ''dog''\<rparr>,
                      \<lparr>Attributes = [''Confidence'' \<mapsto> AFloat (3 / 5), ''Text'' \<mapsto> AString ''x''],
                       Coords = (0, 0, 4, 2), Label = ''cat''\<rparr>], FilePath = ''b.jpg''\<rparr>]
   = Inr [\<lparr>Annotations = [\<lparr>Attributes = [''Confidence'' \<mapsto> AFloat (3 / 5)],
                            Coords = (0, 0, 4, 2), Label = ''cat''\<rparr>], FilePath = ''b.jpg''\<rparr>]
   \<and>
   Filter \<lparr>labelNames = [''cat''], attributes = [''Confidence''], requiredAttrs = [''Confidence''],
           minConfidence = 1 / 2, requireLabel = True, minBboxWidth = 1, minBboxHeight = 1,
           minAspectRatio = 0, maxAspectRatio = 4\<rparr>
     [\<lparr>Annotations = [\<lparr>Attributes = [''Confidence'' \<mapsto> AFloat (3 / 5)],
                            Coords = (0, 0, 4, 2), Label = ''cat''\<rparr>], FilePath = ''b.jpg''\<rparr>]
   = Inr [\<lparr>Annotations = [\<lparr>Attributes = [''Confidence'' \<mapsto> AFloat (3 / 5)],
                            Coords = (0, 0, 4, 2), Label = ''cat''\<rparr>], FilePath = ''b.jpg''\<rparr>]"
proof -
  have first: "Filter \<lparr>labelNames = [''cat''], attributes = [''Confidence''], requiredAttrs = [''Confidence''],
           minConfidence = 1 / 2, requireLabel = True, minBboxWidth = 1, minBboxHeight = 1,
           minAspectRatio = 0, maxAspectRatio = 4\<rparr>
     [\<lparr>Annotations = [\<lparr>Attributes = [''Confidence'' \<mapsto> AFloat (2 / 5)], Coords = (0, 0, 4, 4),
                       Label = ''cat''\<rparr>], FilePath = ''a.jpg''\<rparr>,
      \<lparr>Annotations = [\<lparr>Attributes = Map.empty, Coords = (0, 0, 2, 2), Label = ''dog''\<rparr>,
                      \<lparr>Attributes = [''Confidence'' \<mapsto> AFloat (3 / 5), ''Text'' \<mapsto> AString ''x''],
                       Coords = (0, 0, 4, 2), Label = ''cat''\<rparr>], FilePath = ''b.jpg''\<rparr>]
   = Inr [\<lparr>Annotations = [\<lparr>Attributes = [''Confidence'' \<mapsto> AFloat (3 / 5)],
                            Coords = (0, 0, 4, 2), Label = ''cat''\<rparr>], FilePath = ''b.jpg''\<rparr>]"
    by (simp add: Filter_eval fun_eq_iff)
  from Filter_idempotent [OF first] first show ?thesis by simp
qed

subsection \<open>The confidence filter\<close>

text \<open>
  C5. With \<open>minConfidence = 0.5\<close>, an annotation whose Confidence attribute is the float
  0.4 is deleted, so no annotation of the dataset Filter returns has it, while an annotation
  with Confidence 0.6 and an annotation without a Confidence attribute pass the confidence
  test.
\<close>

theorem minConfidence_half:
  assumes "minConfidence P = 1 / 2"
  shows "(Attributes a Confidence = Some (AFloat (4 / 10)) \<longrightarrow> checkAnnotation P a = Inr None)
       \<and> (Filter P data = Inr data' \<longrightarrow>
            (\<forall>f \<in> set data'. \<forall>b \<in> set (Annotations f).
               Attributes b Confidence \<noteq> Some (AFloat (4 / 10))))
       \<and> (Attributes a Confidence = Some (AFloat (6 / 10))
            \<longrightarrow> \<not> belowMinConfidence (minConfidence P) a)
       \<and> (Attributes a Confidence = None \<longrightarrow> \<not> belowMinConfidence (minConfidence P) a)"
proof -
  have kept: "Attributes b Confidence \<noteq> Some (AFloat (4 / 10))"
    if "checkAnnotation P x = Inr (Some b)" for x b
  proof -
    from that have b: "b = filterAttributes (attributes P) x"
      and c: "\<not> belowMinConfidence (minConfidence P) x"
      by (auto simp: checkAnnotation_def split: if_splits sum.splits bool.splits)
    from c assms have "Attributes x Confidence \<noteq> Some (AFloat (4 / 10))"
      by (auto simp: belowMinConfidence_def)
    with b show ?thesis
      by (simp add: filterAttributes_def)
  qed
  have out: "\<forall>f \<in> set data'. \<forall>b \<in> set (Annotations f).
               Attributes b Confidence \<noteq> Some (AFloat (4 / 10))"
    if run: "Filter P data = Inr data'"
  proof (intro ballI)
    fix f b assume f: "f \<in> set data'" and b: "b \<in> set (Annotations f)"
    from run fileLoop_result [of P 0 data data'] f
    obtain anns where "annotationLoop P 0 anns = Inr (Annotations f)"
      by (auto simp: Filter_def)
    from annotationLoop_result [OF this] b
    obtain x where "checkAnnotation P x = Inr (Some b)" by auto
    then show "Attributes b Confidence \<noteq> Some (AFloat (4 / 10))" by (rule kept)
  qed
  have "Attributes a Confidence = Some (AFloat (4 / 10)) \<longrightarrow> checkAnnotation P a = Inr None"
    using assms by (simp add: checkAnnotation_def belowMinConfidence_def)
  moreover have "Attributes a Confidence = Some (AFloat (6 / 10))
            \<longrightarrow> \<not> belowMinConfidence (minConfidence P) a"
    using assms by (simp add: belowMinConfidence_def)
  moreover have "Attributes a Confidence = None \<longrightarrow> \<not> belowMinConfidence (minConfidence P) a"
    by (simp add: belowMinConfidence_def)
  ultimately show ?thesis using out by blast
qed

theorem minConfidence_half_witness:
  "Filter \<lparr>labelNames = [], attributes = [], requiredAttrs = [],
           minConfidence = 1 / 2, requireLabel = False, minBboxWidth = 0, minBboxHeight = 0,
           minAspectRatio = 0, maxAspectRatio = 0\<rparr>
     [\<lparr>Annotations = [\<lparr>Attributes = [''Confidence'' \<mapsto> AFloat (4 / 10)], Coords = (0, 0, 4, 4),
                       Label = ''low''\<rparr>,
                      \<lparr>Attributes = [''Confidence'' \<mapsto> AFloat (6 / 10)], Coords = (0, 0, 4, 4),
                       Label = ''high''\<rparr>,
                      \<lparr>Attributes = Map.empty, Coords = (0, 0, 4, 4), Label = ''none''\<rparr>],
       FilePath = ''a.jpg''\<rparr>]
   = Inr [\<lparr>Annotations = [\<lparr>Attributes = Map.empty, Coords = (0, 0, 4, 4), Label = ''none''\<rparr>,
                          \<lparr>Attributes = [''Confidence'' \<mapsto> AFloat (6 / 10)],
                           Coords = (0, 0, 4, 4), Label = ''high''\<rparr>],
           FilePath = ''a.jpg''\<rparr>]
   \<and> checkAnnotation \<lparr>labelNames = [], attributes = [], requiredAttrs = [],
           minConfidence = 1 / 2, requireLabel = False, minBboxWidth = 0, minBboxHeight = 0,
           minAspectRatio = 0, maxAspectRatio = 0\<rparr>
         \<lparr>Attributes = [''Confidence'' \<mapsto> AFloat (4 / 10)], Coords = (0, 0, 4, 4),
          Label = ''low''\<rparr> = Inr None
   \<and> \<not> belowMinConfidence (1 / 2)
         \<lparr>Attributes = [''Confidence'' \<mapsto> AFloat (6 / 10)], Coords = (0, 0, 4, 4),
          Label = ''high''\<rparr>
   \<and> \<not> belowMinConfidence (1 / 2)
         \<lparr>Attributes = Map.empty, Coords = (0, 0, 4, 4), Label = ''none''\<rparr>"
proof -
  have run: "Filter \<lparr>labelNames = [], attributes = [], requiredAttrs = [],
           minConfidence = 1 / 2, requireLabel = False, minBboxWidth = 0, minBboxHeight = 0,
           minAspectRatio = 0, maxAspectRatio = 0\<rparr>
     [\<lparr>Annotations = [\<lparr>Attributes = [''Confidence'' \<mapsto> AFloat (4 / 10)], Coords = (0, 0, 4, 4),
                       Label = ''low''\<rparr>,
                      \<lparr>Attributes = [''Confidence'' \<mapsto> AFloat (6 / 10)], Coords = (0, 0, 4, 4),
                       Label = ''high''\<rparr>,
                      \<lparr>Attributes = Map.empty, Coords = (0, 0, 4, 4), Label = ''none''\<rparr>],
       FilePath = ''a.jpg''\<rparr>]
   = Inr [\<lparr>Annotations = [\<lparr>Attributes = Map.empty, Coords = (0, 0, 4, 4), Label = ''none''\<rparr>,
                          \<lparr>Attributes = [''Confidence'' \<mapsto> AFloat (6 / 10)],
                           Coords = (0, 0, 4, 4), Label = ''high''\<rparr>],
           FilePath = ''a.jpg''\<rparr>]"
    by (simp add: Filter_eval fun_eq_iff)
  have half: "minConfidence \<lparr>labelNames = [], attributes = [], requiredAttrs = [],
           minConfidence = 1 / 2, requireLabel = False, minBboxWidth = 0, minBboxHeight = 0,
           minAspectRatio = 0, maxAspectRatio = 0\<rparr> = 1 / 2"
    by simp
  from minConfidence_half [OF half,
      of "\<lparr>Attributes = [''Confidence'' \<mapsto> AFloat (4 / 10)], Coords = (0, 0, 4, 4),
          Label = ''low''\<rparr>"]
  have low: "checkAnnotation \<lparr>labelNames = [], attributes = [], requiredAttrs = [],
           minConfidence = 1 / 2, requireLabel = False, minBboxWidth = 0, minBboxHeight = 0,
           minAspectRatio = 0, maxAspectRatio = 0\<rparr>
         \<lparr>Attributes = [''Confidence'' \<mapsto> AFloat (4 / 10)], Coords = (0, 0, 4, 4),
          Label = ''low''\<rparr> = Inr None"
    by (simp add: Confidence_def)
  from minConfidence_half [OF half,
      of "\<lparr>Attributes = [''Confidence'' \<mapsto> AFloat (6 / 10)], Coords = (0, 0, 4, 4),
          Label = ''high''\<rparr>"]
  have high: "\<not> belowMinConfidence (1 / 2)
         \<lparr>Attributes = [''Confidence'' \<mapsto> AFloat (6 / 10)], Coords = (0, 0, 4, 4),
          Label = ''high''\<rparr>"
    by (simp add: Confidence_def)
  from minConfidence_half [OF half,
      of "\<lparr>Attributes = Map.empty, Coords = (0, 0, 4, 4), Label = ''none''\<rparr>"]
  have none: "\<not> belowMinConfidence (1 / 2)
         \<lparr>Attributes = Map.empty, Coords = (0, 0, 4, 4), Label = ''none''\<rparr>"
    by (simp add: Confidence_def)
  from run low high none show ?thesis by blast
qed

subsection \<open>Cropping\<close>

text \<open>
  Where the rounded coordinates of an annotation are in the range of \<^verbatim>\<open>int\<close>, the rectangle
  the code computes is the rounded box cut to the image bounds.  The crop loop is then a
  selection: the annotations whose clipped box is not empty, each with its index in the file.
\<close>

lemma clipToBounds_exact: "coordsFitInt a \<Longrightarrow> clipToBounds ovf img a = clippedBox img a"
  by (auto simp: clipToBounds_def clippedBox_def roundedBox_def coordsFitInt_def roundToInt_def
           split: prod.splits)

lemma cropLoop_exact:
  "\<forall>a \<in> set as. coordsFitInt a \<Longrightarrow>
   cropLoop ovf img p i as =
     (map (\<lambda>(j, a). SubImage img (clippedBox img a))
        (filter (\<lambda>(j, a). \<not> Empty (clippedBox img a)) (enumerate i as)),
      map (\<lambda>(j, a). cropFile p j a (clippedBox img a))
        (filter (\<lambda>(j, a). \<not> Empty (clippedBox img a)) (enumerate i as)))"
  by (induction as arbitrary: i) (auto simp: Let_def clipToBounds_exact)

lemma filter_enumerate_snd:
  "map snd (filter (\<lambda>(j, a). P a) (enumerate i as)) = filter P as"
  by (induction as arbitrary: i) auto

lemma Intersect_absorb: "\<not> Empty (Intersect r s) \<Longrightarrow> Intersect (Intersect r s) s = Intersect r s"
  by (cases "Empty \<lparr>MinX = (if MinX r < MinX s then MinX s else MinX r),
                MinY = (if MinY r < MinY s then MinY s else MinY r),
                MaxX = (if MaxX r > MaxX s then MaxX s else MaxX r),
                MaxY = (if MaxY r > MaxY s then MaxY s else MaxY r)\<rparr>")
     (auto simp: Intersect_def Empty_def ZR_def Let_def)

lemma Bounds_SubImage_clip:
  "\<not> Empty (clippedBox img a) \<Longrightarrow> Bounds (SubImage img (clippedBox img a)) = clippedBox img a"
  by (simp add: SubImage_def clippedBox_def Intersect_absorb)

lemma decimal_digit: "n < 10 \<Longrightarrow> decimal n = [digit n]"
  by (simp add: decimal.simps)

lemma decimal_nonempty: "1 \<le> length (decimal n)"
  by (subst decimal.simps) simp

lemma fmt_02d_two_digits: "i < 100 \<Longrightarrow> fmt_02d i = [digit (i div 10), digit (i mod 10)]"
proof (cases "i < 10")
  case True
  then show ?thesis by (simp add: fmt_02d_def decimal_digit digit_def)
next
  case False
  assume "i < 100"
  with False have "decimal i = decimal (i div 10) @ [digit (i mod 10)]" "i div 10 < 10"
    by (simp_all add: decimal.simps [of i])
  with False show ?thesis by (simp add: fmt_02d_def decimal_digit)
qed

lemma fmt_02d_more_digits: "100 \<le> i \<Longrightarrow> fmt_02d i = decimal i \<and> 3 \<le> length (decimal i)"
proof -
  assume i: "100 \<le> i"
  then have "decimal i = decimal (i div 10) @ [digit (i mod 10)]"
    by (simp add: decimal.simps [of i])
  moreover from i have "decimal (i div 10) = decimal (i div 10 div 10) @ [digit (i div 10 mod 10)]"
    by (simp add: decimal.simps [of "i div 10"])
  ultimately have "length (decimal i) = length (decimal (i div 10 div 10)) + 2" by simp
  with decimal_nonempty [of "i div 10 div 10"] i show ?thesis
    by (simp add: fmt_02d_def)
qed

lemmas crop_eval = clipToBounds_def clippedBox_def roundedBox_def roundToInt_def fitsInt_def
  coordsFitInt_def image_Rect_def Intersect_def Empty_def ZR_def go_round_def
  cropCoordsString_def fmt_d_def fmt_02d_def decimal.simps digit_def filepath_Ext_def
  Dx_def Dy_def CropCoords_def Let_def

text \<open>
  C2, as stated: every annotation whose rounded box meets the image bounds gives one derived
  file, and the path of that file has the index of the annotation in two digits.  Two inputs
  fail.  A coordinate of \<open>10 ^ 30\<close> rounds to a value outside the range of \<^verbatim>\<open>int\<close>; on amd64
  the conversion gives \<open>- 2 ^ 63\<close>, the rectangle becomes \<open>(- 2 ^ 63, - 2 ^ 63)-(0, 0)\<close>, its
  intersection with the bounds of a 100 x 100 image is empty and there is no derived file,
  although the rounded box covers the image.  And the verb \<^verbatim>\<open>%02d\<close> pads to two digits
  at least: the annotation with index 100 of \<^verbatim>\<open>foo.jpg\<close> has the path \<^verbatim>\<open>foo_100.jpg\<close>.
\<close>

theorem cropObjectsFromImage_out_of_range:
  "\<not> Empty (clippedBox
        \<lparr>Bounds = \<lparr>MinX = 0, MinY = 0, MaxX = 100, MaxY = 100\<rparr>, HasSubImage = True\<rparr>
        \<lparr>Attributes = Map.empty,
         Coords = (0, 0, 1000000000000000000000000000000, 1000000000000000000000000000000),
         Label = ''cat''\<rparr>)
   \<and> cropObjectsFromImage (\<lambda>x. - (2 ^ 63))
       \<lparr>Annotations =
          [\<lparr>Attributes = Map.empty,
            Coords = (0, 0, 1000000000000000000000000000000, 1000000000000000000000000000000),
            Label = ''cat''\<rparr>],
        FilePath = ''foo.jpg''\<rparr>
       \<lparr>Bounds = \<lparr>MinX = 0, MinY = 0, MaxX = 100, MaxY = 100\<rparr>, HasSubImage = True\<rparr>
     = Inr ([], [])
   \<and> cropPath ''foo.jpg'' 100 = ''foo_100.jpg''"
  by (simp add: cropObjectsFromImage_def cropPath_def crop_eval)


text \<open>
  C2, amended: on an image with a \<^verbatim>\<open>SubImage\<close> method and for a file whose annotations
  have rounded coordinates in the range of \<^verbatim>\<open>int\<close> (64 bits), whatever the implementation
  does outside that range, cropping returns no error.  An annotation whose rounded box does
  not meet the image bounds gives no output.  Every other annotation gives one file with one
  annotation: the coordinates are (0, 0, width, height) of the intersection, which are the
  bounds of the crop, the label is the original one, the attribute CropCoords holds the
  intersection rectangle, and the path is the original path with an underscore and the index
  of the annotation before the extension, the index written in decimal and padded with a
  zero to two digits at least (two digits below 100, three or more from 100 on).  So the
  number of files is the number of annotations with a non-empty intersection: 2 for a file
  with 3 annotations of which one lies outside.
\<close>

theorem cropObjectsFromImage_derived_files:
  assumes "HasSubImage img"
    and "\<forall>a \<in> set (Annotations f). coordsFitInt a"
  shows "\<exists>crops files.
     cropObjectsFromImage ovf f img = Inr (crops, files)
     \<and> length files = length (filter (\<lambda>a. \<not> Empty (clippedBox img a)) (Annotations f))
     \<and> files =
         map (\<lambda>(i, a).
               \<lparr>Annotations =
                  [\<lparr>Attributes = (Attributes a)(CropCoords \<mapsto>
                                      AString (cropCoordsString (clippedBox img a))),
                    Coords = (0, 0, real_of_int (Dx (clippedBox img a)),
                              real_of_int (Dy (clippedBox img a))),
                    Label = Label a\<rparr>],
                FilePath = take (length (FilePath f) - length (filepath_Ext (FilePath f))) (FilePath f)
                             @ ''_'' @ fmt_02d i @ filepath_Ext (FilePath f)\<rparr>)
             (filter (\<lambda>(i, a). \<not> Empty (clippedBox img a)) (enumerate 0 (Annotations f)))
     \<and> map Bounds crops
         = filter (\<lambda>r. \<not> Empty r) (map (clippedBox img) (Annotations f))
     \<and> (\<forall>i < 100. fmt_02d i = [digit (i div 10), digit (i mod 10)])
     \<and> (\<forall>i \<ge> 100. fmt_02d i = decimal i \<and> 3 \<le> length (decimal i))"
proof -
  let ?sel = "filter (\<lambda>(i, a). \<not> Empty (clippedBox img a)) (enumerate 0 (Annotations f))"
  let ?files = "map (\<lambda>(j, a). cropFile (FilePath f) j a (clippedBox img a)) ?sel"
  let ?crops = "map (\<lambda>(j, a). SubImage img (clippedBox img a)) ?sel"
  have run: "cropObjectsFromImage ovf f img = Inr (?crops, ?files)"
    using assms by (simp add: cropObjectsFromImage_def cropLoop_exact)
  have "length ?files = length (map snd ?sel)" by simp
  also have "\<dots> = length (filter (\<lambda>a. \<not> Empty (clippedBox img a)) (Annotations f))"
    by (simp only: filter_enumerate_snd)
  finally have len: "length ?files
      = length (filter (\<lambda>a. \<not> Empty (clippedBox img a)) (Annotations f))" .
  have "map Bounds ?crops = map (\<lambda>(j, a). clippedBox img a) ?sel"
    by (auto simp: Bounds_SubImage_clip)
  also have "\<dots> = map (clippedBox img) (map snd ?sel)"
    by (simp add: case_prod_unfold comp_def)
  also have "\<dots> = filter (\<lambda>r. \<not> Empty r) (map (clippedBox img) (Annotations f))"
    by (simp only: filter_enumerate_snd filter_map comp_def)
  finally have bounds: "map Bounds ?crops
      = filter (\<lambda>r. \<not> Empty r) (map (clippedBox img) (Annotations f))" .
  have files: "?files = map (\<lambda>(i, a).
               \<lparr>Annotations =
                  [\<lparr>Attributes = (Attributes a)(CropCoords \<mapsto>
                                      AString (cropCoordsString (clippedBox img a))),
                    Coords = (0, 0, real_of_int (Dx (clippedBox img a)),
                              real_of_int (Dy (clippedBox img a))),
                    Label = Label a\<rparr>],
                FilePath = take (length (FilePath f) - length (filepath_Ext (FilePath f))) (FilePath f)
                             @ ''_'' @ fmt_02d i @ filepath_Ext (FilePath f)\<rparr>) ?sel"
    by (simp add: cropFile_def cropPath_def Let_def)
  from run len files bounds fmt_02d_two_digits fmt_02d_more_digits show ?thesis
    by blast
qed

theorem cropObjectsFromImage_derived_files_witness:
  "cropObjectsFromImage (\<lambda>x. - (2 ^ 63))
     \<lparr>Annotations = [\<lparr>Attributes = Map.empty, Coords = (52 / 5, 41 / 2, 101 / 2, 301 / 5),
                       Label = ''cat''\<rparr>,
                      \<lparr>Attributes = Map.empty, Coords = (150, 150, 200, 200), Label = ''dog''\<rparr>,
                      \<lparr>Attributes = Map.empty, Coords = (80, 90, 120, 130), Label = ''cow''\<rparr>],
      FilePath = ''dir/foo.jpg''\<rparr>
     \<lparr>Bounds = \<lparr>MinX = 0, MinY = 0, MaxX = 100, MaxY = 100\<rparr>, HasSubImage = True\<rparr>
   = Inr ([\<lparr>Bounds = \<lparr>MinX = 10, MinY = 21, MaxX = 51, MaxY = 60\<rparr>, HasSubImage = True\<rparr>,
           \<lparr>Bounds = \<lparr>MinX = 80, MinY = 90, MaxX = 100, MaxY = 100\<rparr>, HasSubImage = True\<rparr>],
      [\<lparr>Annotations = [\<lparr>Attributes = [''CropCoords'' \<mapsto> AString ''(10,21)(51,60)''],
                        Coords = (0, 0, 41, 39), Label = ''cat''\<rparr>],
        FilePath = ''dir/foo_00.jpg''\<rparr>,
       \<lparr>Annotations = [\<lparr>Attributes = [''CropCoords'' \<mapsto> AString ''(80,90)(100,100)''],
                        Coords = (0, 0, 20, 10), Label = ''cow''\<rparr>],
        FilePath = ''dir/foo_02.jpg''\<rparr>])
   \<and> length (filter (\<lambda>a. \<not> Empty (clippedBox
          \<lparr>Bounds = \<lparr>MinX = 0, MinY = 0, MaxX = 100, MaxY = 100\<rparr>, HasSubImage = True\<rparr> a))
        [\<lparr>Attributes = Map.empty, Coords = (52 / 5, 41 / 2, 101 / 2, 301 / 5), Label = ''cat''\<rparr>,
         \<lparr>Attributes = Map.empty, Coords = (150, 150, 200, 200), Label = ''dog''\<rparr>,
         \<lparr>Attributes = Map.empty, Coords = (80, 90, 120, 130), Label = ''cow''\<rparr>]) = 2"
proof -
  have sub: "HasSubImage \<lparr>Bounds = \<lparr>MinX = 0, MinY = 0, MaxX = 100, MaxY = 100\<rparr>, HasSubImage = True\<rparr>"
    by simp
  have fit: "\<forall>a \<in> set (Annotations
     \<lparr>Annotations = [\<lparr>Attributes = Map.empty, Coords = (52 / 5, 41 / 2, 101 / 2, 301 / 5),
                       Label = ''cat''\<rparr>,
                      \<lparr>Attributes = Map.empty, Coords = (150, 150, 200, 200), Label = ''dog''\<rparr>,
                      \<lparr>Attributes = Map.empty, Coords = (80, 90, 120, 130), Label = ''cow''\<rparr>],
      FilePath = ''dir/foo.jpg''\<rparr>). coordsFitInt a"
    by (simp add: coordsFitInt_def fitsInt_def go_round_def)
  have run: "cropObjectsFromImage (\<lambda>x. - (2 ^ 63))
     \<lparr>Annotations = [\<lparr>Attributes = Map.empty, Coords = (52 / 5, 41 / 2, 101 / 2, 301 / 5),
                       Label = ''cat''\<rparr>,
                      \<lparr>Attributes = Map.empty, Coords = (150, 150, 200, 200), Label = ''dog''\<rparr>,
                      \<lparr>Attributes = Map.empty, Coords = (80, 90, 120, 130), Label = ''cow''\<rparr>],
      FilePath = ''dir/foo.jpg''\<rparr>
     \<lparr>Bounds = \<lparr>MinX = 0, MinY = 0, MaxX = 100, MaxY = 100\<rparr>, HasSubImage = True\<rparr>
   = Inr ([\<lparr>Bounds = \<lparr>MinX = 10, MinY = 21, MaxX = 51, MaxY = 60\<rparr>, HasSubImage = True\<rparr>,
           \<lparr>Bounds = \<lparr>MinX = 80, MinY = 90, MaxX = 100, MaxY = 100\<rparr>, HasSubImage = True\<rparr>],
      [\<lparr>Annotations = [\<lparr>Attributes = [''CropCoords'' \<mapsto> AString ''(10,21)(51,60)''],
                        Coords = (0, 0, 41, 39), Label = ''cat''\<rparr>],
        FilePath = ''dir/foo_00.jpg''\<rparr>,
       \<lparr>Annotations = [\<lparr>Attributes = [''CropCoords'' \<mapsto> AString ''(80,90)(100,100)''],
                        Coords = (0, 0, 20, 10), Label = ''cow''\<rparr>],
        FilePath = ''dir/foo_02.jpg''\<rparr>])"
    by (simp add: cropObjectsFromImage_def SubImage_def cropFile_def cropPath_def crop_eval)
  from cropObjectsFromImage_derived_files [OF sub fit, of "\<lambda>x. - (2 ^ 63)"]
  obtain crops files where
    eq: "cropObjectsFromImage (\<lambda>x. - (2 ^ 63))
     \<lparr>Annotations = [\<lparr>Attributes = Map.empty, Coords = (52 / 5, 41 / 2, 101 / 2, 301 / 5),
                       Label = ''cat''\<rparr>,
                      \<lparr>Attributes = Map.empty, Coords = (150, 150, 200, 200), Label = ''dog''\<rparr>,
                      \<lparr>Attributes = Map.empty, Coords = (80, 90, 120, 130), Label = ''cow''\<rparr>],
      FilePath = ''dir/foo.jpg''\<rparr>
     \<lparr>Bounds = \<lparr>MinX = 0, MinY = 0, MaxX = 100, MaxY = 100\<rparr>, HasSubImage = True\<rparr>
      = Inr (crops, files)"
    and len: "length files = length (filter (\<lambda>a. \<not> Empty (clippedBox
          \<lparr>Bounds = \<lparr>MinX = 0, MinY = 0, MaxX = 100, MaxY = 100\<rparr>, HasSubImage = True\<rparr> a))
        [\<lparr>Attributes = Map.empty, Coords = (52 / 5, 41 / 2, 101 / 2, 301 / 5), Label = ''cat''\<rparr>,
         \<lparr>Attributes = Map.empty, Coords = (150, 150, 200, 200), Label = ''dog''\<rparr>,
         \<lparr>Attributes = Map.empty, Coords = (80, 90, 120, 130), Label = ''cow''\<rparr>])"
    unfolding AnnotatedFile.simps by blast
  from eq [unfolded run] have "length files = 2"
    by auto
  with len run show ?thesis
    by simp
qed


subsection \<open>Resizing\<close>

text \<open>
  C8. Resizing a 200 x 100 image with \<open>longerSide = 100\<close> and \<open>shorterSide = 0\<close> gives a
  100 x 50 image and the scale factors 1/2 and 1/2, and scaling the coordinates of a file by
  these factors maps an annotation at (20, 20, 60, 60) to (10, 10, 30, 30).
\<close>

theorem resize_200x100_longer_100:
  assumes "Dx (Bounds img) = 200" and "Dy (Bounds img) = 100"
    and "Coords a = (20, 20, 60, 60)"
  shows "\<exists>resized. resizeImage img 100 0 = Some (resized, 1 / 2, 1 / 2)
         \<and> Dx (Bounds resized) = 100 \<and> Dy (Bounds resized) = 50
         \<and> map Coords (Annotations (scaleCoords (1 / 2) (1 / 2) \<lparr>Annotations = [a], FilePath = p\<rparr>))
             = [(10, 10, 30, 30)]"
  using assms
  by (auto simp add: resizeImage_def imaging_Resize_def go_round_def scaleCoords_def Dx_def Dy_def Let_def)


theorem resize_200x100_longer_100_witness:
  "resizeImage \<lparr>Bounds = \<lparr>MinX = 0, MinY = 0, MaxX = 200, MaxY = 100\<rparr>, HasSubImage = False\<rparr> 100 0
     = Some (\<lparr>Bounds = \<lparr>MinX = 0, MinY = 0, MaxX = 100, MaxY = 50\<rparr>, HasSubImage = True\<rparr>, 1 / 2, 1 / 2)
   \<and> map Coords (Annotations (scaleCoords (1 / 2) (1 / 2)
         \<lparr>Annotations = [\<lparr>Attributes = Map.empty, Coords = (20, 20, 60, 60), Label = ''cat''\<rparr>],
          FilePath = ''a.jpg''\<rparr>))
     = [(10, 10, 30, 30)]"
  using resize_200x100_longer_100
    [of "\<lparr>Bounds = \<lparr>MinX = 0, MinY = 0, MaxX = 200, MaxY = 100\<rparr>, HasSubImage = False\<rparr>"
        "\<lparr>Attributes = Map.empty, Coords = (20, 20, 60, 60), Label = ''cat''\<rparr>" "''a.jpg''"]
  by (auto simp: Dx_def Dy_def resizeImage_def imaging_Resize_def go_round_def Let_def)

subsection \<open>ProcessImages without work\<close>

text \<open>
  C9. With \<open>longerSide \<le> 0\<close>, \<open>shorterSide \<le> 0\<close> and no cropping, ProcessImages returns
  no error at once: the dataset is the one it was given and no image is read or written,
  whatever the other arguments are, unknown filter and encoding names included.
\<close>

theorem ProcessImages_nothing_to_do:
  assumes "longerSide \<le> 0" and "shorterSide \<le> 0"
  shows "ProcessImages env imageOutDir longerSide shorterSide downsamplingFilter
           upsamplingFilter encoding False data = (data, [], None)"
  using assms by (simp add: ProcessImages_def)

theorem ProcessImages_nothing_to_do_witness:
  "ProcessImages
     \<lparr>loadImage = (\<lambda>p. Inl (ImageIOError p)), saveImage = (\<lambda>p img. None),
      filepath_Join = (\<lambda>dir name. dir @ ''/'' @ name), intOverflow = (\<lambda>x. - (2 ^ 63))\<rparr>
     ''out'' 0 (- 1) ''cubic'' ''linear'' ''gif'' False
     [\<lparr>Annotations = [\<lparr>Attributes = Map.empty, Coords = (20, 20, 60, 60), Label = ''cat''\<rparr>],
       FilePath = ''a.jpg''\<rparr>]
   = ([\<lparr>Annotations = [\<lparr>Attributes = Map.empty, Coords = (20, 20, 60, 60), Label = ''cat''\<rparr>],
        FilePath = ''a.jpg''\<rparr>], [], None)"
  using ProcessImages_nothing_to_do [of 0 "- 1"] by simp

subsection \<open>MapLabels\<close>

text \<open>
  A string splits at \<^verbatim>\<open>=\<close> into one part more than it has \<^verbatim>\<open>=\<close> signs; with exactly
  one sign the parts are the text before it and the text after it.
\<close>

lemma splitOn_nonempty: "splitOn c s \<noteq> []"
  by (induction s) (auto split: list.splits)

lemma length_splitOn: "length (splitOn c s) = Suc (count_list s c)"
  by (induction s) (auto simp: splitOn_nonempty split: list.splits)

lemma splitOn_none: "count_list s c = 0 \<Longrightarrow> splitOn c s = [s]"
  by (induction s) (auto split: if_splits)

lemma splitOn_once:
  "count_list s c = 1 \<Longrightarrow>
     splitOn c s = [takeWhile (\<lambda>x. x \<noteq> c) s, tl (dropWhile (\<lambda>x. x \<noteq> c) s)]"
  by (induction s) (auto simp: splitOn_none split: if_splits)

lemma parseMappings_wellformed:
  "\<forall>v \<in> set ms. count_list v CHR ''='' = 1 \<Longrightarrow>
     parseMappings ms = Inr (map (\<lambda>v. (takeWhile (\<lambda>x. x \<noteq> CHR ''='') v,
                                      tl (dropWhile (\<lambda>x. x \<noteq> CHR ''='') v))) ms)"
  by (induction ms) (simp_all add: splitOn_once)

lemma parseMappings_malformed:
  "\<exists>v \<in> set ms. count_list v CHR ''='' \<noteq> 1 \<Longrightarrow>
     \<exists>v \<in> set ms. count_list v CHR ''='' \<noteq> 1 \<and> parseMappings ms = Inl (MalformedRule v)"
proof (induction ms)
  case Nil
  then show ?case by simp
next
  case (Cons v ms)
  show ?case
  proof (cases "count_list v CHR ''='' = 1")
    case True
    with Cons.prems have "\<exists>v \<in> set ms. count_list v CHR ''='' \<noteq> 1" by auto
    from Cons.IH [OF this] True show ?thesis
      by (auto simp: splitOn_once)
  next
    case False
    then have "length (splitOn CHR ''='' v) \<noteq> 2"
      by (simp add: length_splitOn)
    then have "parseMappings (v # ms) = Inl (MalformedRule v)"
      by (auto split: list.splits)
    with False show ?thesis by auto
  qed
qed

lemma applyReplacements_foldl:
  "applyReplacements (map (\<lambda>v. (f v, g v)) ms) l = foldl (\<lambda>l v. strings_Replace l (f v) (g v)) l ms"
  by (induction ms arbitrary: l) auto

lemmas strings_eval = MapLabels_def strings_Replace_def insertAfterRunes.simps runeWidth_def
  contByte_def Let_def

text \<open>
  C7. MapLabels returns an error exactly when some mapping does not split into two parts at
  \<^verbatim>\<open>=\<close>; the error names such a mapping, and the dataset is then unchanged.  When every
  mapping has two parts, the label of every annotation of every file becomes the result of
  the replacements applied one after the other, in the order of the list, each to the
  result of the one before.
\<close>

theorem MapLabels_rules:
  "(snd (MapLabels mappings data) \<noteq> None
      \<longleftrightarrow> (\<exists>v \<in> set mappings. length (splitOn CHR ''='' v) \<noteq> 2))
   \<and> (snd (MapLabels mappings data) \<noteq> None \<longrightarrow>
        (\<exists>v \<in> set mappings. length (splitOn CHR ''='' v) \<noteq> 2
           \<and> snd (MapLabels mappings data) = Some (MalformedRule v))
        \<and> fst (MapLabels mappings data) = data)
   \<and> (snd (MapLabels mappings data) = None \<longrightarrow>
        fst (MapLabels mappings data)
          = map (\<lambda>f. f\<lparr>Annotations :=
                  map (\<lambda>a. a\<lparr>Label :=
                         foldl (\<lambda>label v. strings_Replace label
                                  (takeWhile (\<lambda>x. x \<noteq> CHR ''='') v)
                                  (tl (dropWhile (\<lambda>x. x \<noteq> CHR ''='') v)))
                               (Label a) mappings\<rparr>)
                      (Annotations f)\<rparr>) data)"
proof (cases "\<exists>v \<in> set mappings. count_list v CHR ''='' \<noteq> 1")
  case True
  then have ne: "mappings \<noteq> []" by auto
  from parseMappings_malformed [OF True] obtain v where
    v: "v \<in> set mappings" "count_list v CHR ''='' \<noteq> 1"
      "parseMappings mappings = Inl (MalformedRule v)"
    by blast
  with ne have "MapLabels mappings data = (data, Some (MalformedRule v))"
    by (simp add: MapLabels_def)
  with v show ?thesis
    by (auto simp: length_splitOn)
next
  case False
  then have wf: "\<forall>v \<in> set mappings. count_list v CHR ''='' = 1" by simp
  have id: "map (\<lambda>f. f\<lparr>Annotations := map (\<lambda>a. a\<lparr>Label := Label a\<rparr>) (Annotations f)\<rparr>) data = data"
    by (simp add: map_idI)
  have "MapLabels mappings data =
          (map (\<lambda>f. f\<lparr>Annotations :=
                  map (\<lambda>a. a\<lparr>Label :=
                         foldl (\<lambda>label v. strings_Replace label
                                  (takeWhile (\<lambda>x. x \<noteq> CHR ''='') v)
                                  (tl (dropWhile (\<lambda>x. x \<noteq> CHR ''='') v)))
                               (Label a) mappings\<rparr>)
                      (Annotations f)\<rparr>) data, None)"
  proof (cases "mappings = []")
    case True
    then show ?thesis by (simp add: MapLabels_def id)
  next
    case ne: False
    then show ?thesis
      by (simp add: MapLabels_def parseMappings_wellformed [OF wf] applyReplacements_foldl)
  qed
  with wf show ?thesis
    by (simp add: length_splitOn)
qed

theorem MapLabels_rules_witness:
  "MapLabels [''Text_=T'', ''TL=line'', ''=.'', ''a==b'']
     [\<lparr>Annotations = [\<lparr>Attributes = Map.empty, Coords = (0, 0, 1, 1), Label = ''Text_Line''\<rparr>],
       FilePath = ''a.jpg''\<rparr>]
   = ([\<lparr>Annotations = [\<lparr>Attributes = Map.empty, Coords = (0, 0, 1, 1), Label = ''Text_Line''\<rparr>],
        FilePath = ''a.jpg''\<rparr>], Some (MalformedRule ''a==b''))
   \<and> MapLabels [''Text_=T'', ''TL=l'', ''=.'']
     [\<lparr>Annotations = [\<lparr>Attributes = Map.empty, Coords = (0, 0, 1, 1), Label = ''Text_Line''\<rparr>,
                      \<lparr>Attributes = Map.empty, Coords = (0, 0, 1, 1), Label = ''T''\<rparr>],
       FilePath = ''a.jpg''\<rparr>]
   = ([\<lparr>Annotations = [\<lparr>Attributes = Map.empty, Coords = (0, 0, 1, 1), Label = ''.l.i.n.e.''\<rparr>,
                       \<lparr>Attributes = Map.empty, Coords = (0, 0, 1, 1), Label = ''.T.''\<rparr>],
        FilePath = ''a.jpg''\<rparr>], None)"
  using MapLabels_rules [of "[''Text_=T'', ''TL=line'', ''=.'', ''a==b'']"
     "[\<lparr>Annotations = [\<lparr>Attributes = Map.empty, Coords = (0, 0, 1, 1), Label = ''Text_Line''\<rparr>],
       FilePath = ''a.jpg''\<rparr>]"]
    MapLabels_rules [of "[''Text_=T'', ''TL=l'', ''=.'']"
     "[\<lparr>Annotations = [\<lparr>Attributes = Map.empty, Coords = (0, 0, 1, 1), Label = ''Text_Line''\<rparr>,
                      \<lparr>Attributes = Map.empty, Coords = (0, 0, 1, 1), Label = ''T''\<rparr>],
       FilePath = ''a.jpg''\<rparr>]"]
  by (simp add: strings_eval)

subsection \<open>Split\<close>







lemma length_splitLoop: "length (splitLoop draw ss k ds datasets) = length datasets"
  by (induction ds arbitrary: k datasets) (auto split: option.splits)

lemma splitLoop_nth:
  "i < length datasets \<Longrightarrow>
     splitLoop draw ss k ds datasets ! i
       = datasets ! i @ map fst (filter (\<lambda>(d, j). bucketOf (draw j) ss = Some i)
                                   (zip ds [k..<k + length ds]))"
proof (induction ds arbitrary: k datasets)
  case Nil
  then show ?case by simp
next
  case (Cons d ds)
  have idx: "[k..<Suc (k + length ds)] = k # [Suc k..<Suc (k + length ds)]"
    using upt_conv_Cons [of k "Suc (k + length ds)"] by simp
  show ?case
  proof (cases "bucketOf (draw k) ss")
    case None
    with Cons show ?thesis by (simp add: idx del: upt_Suc)
  next
    case (Some b)
    with Cons.prems have "i < length (datasets[b := datasets ! b @ [d]])" by simp
    from Cons.IH [OF this, of "Suc k"] Some Cons.prems show ?thesis
      by (cases "b = i") (simp_all add: idx del: upt_Suc)
  qed
qed




lemma subseq_selected: "subseq (map fst (filter P (zip xs [k..<k + length xs]))) xs"
proof -
  have "subseq (map fst (filter P (zip xs [k..<k + length xs]))) (map fst (zip xs [k..<k + length xs]))"
    by (intro subseq_map subseq_filter_left)
  then show ?thesis by simp
qed


lemmas Split_eval = Split_def capacity_def Let_def




text \<open>
  C10. When Split succeeds, every dataset it returns is a subsequence of the input: its files
  are in the order they have in the input.
\<close>

theorem Split_buckets_in_order:
  assumes "Split makeSlice draw cumulativeSplits data = Inr datasets"
  shows "\<forall>b \<in> set datasets. subseq b data"
proof
  fix b assume "b \<in> set datasets"
  then obtain i where i: "i < length datasets" "b = datasets ! i"
    by (auto simp: in_set_conv_nth)
  from assms have ds: "datasets = splitLoop draw cumulativeSplits 0 data
                          (replicate (length cumulativeSplits) [])"
    by (auto simp: Split_def split: sum.splits if_splits)
  with i have "i < length (replicate (length cumulativeSplits) ([] :: AnnotatedFiles))"
    by (simp add: length_splitLoop)
  from splitLoop_nth [OF this, of draw cumulativeSplits 0 data] i ds
  have "b = map fst (filter (\<lambda>(d, j). bucketOf (draw j) cumulativeSplits = Some i)
                        (zip data [0..<0 + length data]))"
    by (simp add: length_splitLoop)
  then show "subseq b data"
    using subseq_selected [of _ data 0] by simp
qed

theorem Split_buckets_in_order_witness:
  "Split (\<lambda>percent n. capacity percent n \<le> 1000) (\<lambda>k. int (k * 37 mod 100)) [30, 70, 100]
     [\<lparr>Annotations = [], FilePath = ''a.jpg''\<rparr>, \<lparr>Annotations = [], FilePath = ''b.jpg''\<rparr>,
      \<lparr>Annotations = [], FilePath = ''c.jpg''\<rparr>, \<lparr>Annotations = [], FilePath = ''d.jpg''\<rparr>]
   = Inr [[\<lparr>Annotations = [], FilePath = ''a.jpg''\<rparr>, \<lparr>Annotations = [], FilePath = ''d.jpg''\<rparr>],
          [\<lparr>Annotations = [], FilePath = ''b.jpg''\<rparr>],
          [\<lparr>Annotations = [], FilePath = ''c.jpg''\<rparr>]]
   \<and> subseq [\<lparr>Annotations = [], FilePath = ''a.jpg''\<rparr>, \<lparr>Annotations = [], FilePath = ''d.jpg''\<rparr>]
     [\<lparr>Annotations = [], FilePath = ''a.jpg''\<rparr>, \<lparr>Annotations = [], FilePath = ''b.jpg''\<rparr>,
      \<lparr>Annotations = [], FilePath = ''c.jpg''\<rparr>, \<lparr>Annotations = [], FilePath = ''d.jpg''\<rparr>]"
proof -
  have run: "Split (\<lambda>percent n. capacity percent n \<le> 1000) (\<lambda>k. int (k * 37 mod 100)) [30, 70, 100]
     [\<lparr>Annotations = [], FilePath = ''a.jpg''\<rparr>, \<lparr>Annotations = [], FilePath = ''b.jpg''\<rparr>,
      \<lparr>Annotations = [], FilePath = ''c.jpg''\<rparr>, \<lparr>Annotations = [], FilePath = ''d.jpg''\<rparr>]
   = Inr [[\<lparr>Annotations = [], FilePath = ''a.jpg''\<rparr>, \<lparr>Annotations = [], FilePath = ''d.jpg''\<rparr>],
          [\<lparr>Annotations = [], FilePath = ''b.jpg''\<rparr>],
          [\<lparr>Annotations = [], FilePath = ''c.jpg''\<rparr>]]"
    by (simp add: Split_eval)
  from Split_buckets_in_order [OF run] run show ?thesis by simp
qed


end
